theory Spec2Isabelle
  imports Main "HOL-Library.Char_ord" "HOL-Library.List_Lexorder"
begin

section \<open>JavaScript values used by the trace tool\<close>

text \<open>
  The program is \<^verbatim>\<open>trace-debug.ts\<close> (the trace command of the CLI) together with
  \<^verbatim>\<open>trace-types.ts\<close>. Conventions of the embedding:
  \<^item> a JavaScript number that holds a time in milliseconds, an index or a count is an
    \<open>int\<close>; \<open>NaN\<close>, infinities and fractions are not modelled;
  \<^item> a JavaScript string is a \<open>string\<close> (one \<open>char\<close> per code unit, so the texts are
    taken to be ASCII; the three emoji of the diagnose summary are written as their
    UTF-8 bytes);
  \<^item> an optional field, \<open>undefined\<close> and \<open>null\<close> are \<open>None\<close>;
  \<^item> a record holds the fields of the TypeScript interface that the modelled functions
    read; the other fields are carried along unread by the program and are left out;
  \<^item> what a function prints is returned as a value.
\<close>

text \<open>\<^verbatim>\<open>a || b\<close> on numbers: \<open>undefined\<close> and \<open>0\<close> are falsy.\<close>

definition orNum :: "int option \<Rightarrow> int option \<Rightarrow> int option" where
  "orNum a b = (case a of None \<Rightarrow> b | Some x \<Rightarrow> if x = 0 then b else Some x)"

text \<open>\<^verbatim>\<open>a || b\<close> on strings: \<open>undefined\<close> and the empty string are falsy.\<close>

definition orStr :: "string option \<Rightarrow> string option \<Rightarrow> string option" where
  "orStr a b = (case a of None \<Rightarrow> b | Some s \<Rightarrow> if s = [] then b else Some s)"

text \<open>White space and line terminators of ECMAScript, as far as they are ASCII.\<close>

definition isLineTerminator :: "char \<Rightarrow> bool" where
  "isLineTerminator c = (c = CHR 0x0A \<or> c = CHR 0x0D)"

definition isWhiteSpace :: "char \<Rightarrow> bool" where
  "isWhiteSpace c =
     (c = CHR 0x09 \<or> c = CHR 0x0A \<or> c = CHR 0x0B \<or> c = CHR 0x0C \<or> c = CHR 0x0D \<or> c = CHR 0x20)"

definition isDigit :: "char \<Rightarrow> bool" where
  "isDigit c = (CHR ''0'' \<le> c \<and> c \<le> CHR ''9'')"

text \<open>\<^verbatim>\<open>trim\<close>, \<^verbatim>\<open>startsWith\<close>, \<^verbatim>\<open>includes\<close> and \<^verbatim>\<open>split\<close> of \<^verbatim>\<open>String.prototype\<close>.\<close>

definition trim :: "string \<Rightarrow> string" where
  "trim s = rev (dropWhile isWhiteSpace (rev (dropWhile isWhiteSpace s)))"

definition startsWith :: "string \<Rightarrow> string \<Rightarrow> bool" where
  "startsWith s p = (take (length p) s = p)"

fun includesStr :: "string \<Rightarrow> string \<Rightarrow> bool" where
  "includesStr [] sub = (sub = [])"
| "includesStr (c # cs) sub = (startsWith (c # cs) sub \<or> includesStr cs sub)"

fun splitStr :: "char \<Rightarrow> string \<Rightarrow> string list" where
  "splitStr sep [] = [[]]"
| "splitStr sep (c # cs) =
     (if c = sep then [] # splitStr sep cs
      else (case splitStr sep cs of [] \<Rightarrow> [[c]] | l # ls \<Rightarrow> (c # l) # ls))"

text \<open>
  \<^verbatim>\<open>Array.prototype.slice(start, end)\<close> (and \<^verbatim>\<open>String.prototype.slice\<close>): a negative
  index counts from the end, and both indices are clamped to the length.
\<close>

definition slice :: "int \<Rightarrow> int \<Rightarrow> 'a list \<Rightarrow> 'a list" where
  "slice start fin xs =
     (let n = int (length xs);
          k = (if start < 0 then max (n + start) 0 else min start n);
          f = (if fin < 0 then max (n + fin) 0 else min fin n)
      in take (nat (f - k)) (drop (nat k) xs))"

text \<open>An array read \<^verbatim>\<open>xs[i]\<close>: \<open>undefined\<close> out of range.\<close>

definition at :: "'a list \<Rightarrow> nat \<Rightarrow> 'a option" where
  "at xs i = (if i < length xs then Some (xs ! i) else None)"

text \<open>
  \<^verbatim>\<open>path.basename\<close> of Node (POSIX): the last segment of the path, trailing separators
  not counted.
\<close>

definition basename :: "string \<Rightarrow> string" where
  "basename p =
     rev (takeWhile (\<lambda>c. c \<noteq> CHR ''/'') (dropWhile (\<lambda>c. c = CHR ''/'') (rev p)))"

text \<open>
  \<^verbatim>\<open>path.normalize\<close> and \<^verbatim>\<open>path.join\<close> of Node (POSIX). Normalising drops empty segments
  and \<^verbatim>\<open>.\<close> segments, lets a \<^verbatim>\<open>..\<close> segment remove the segment before it (a relative path
  keeps the \<^verbatim>\<open>..\<close> that have nothing to remove), and keeps a leading and a trailing
  separator. Joining puts a separator between the non-empty arguments and normalises.
\<close>

fun joinSegments :: "string list \<Rightarrow> string" where
  "joinSegments [] = []"
| "joinSegments [x] = x"
| "joinSegments (x # y # zs) = x @ ''/'' @ joinSegments (y # zs)"

definition normalizeStep :: "bool \<Rightarrow> string list \<Rightarrow> string \<Rightarrow> string list" where
  "normalizeStep allowAboveRoot res seg =
     (if seg = [] \<or> seg = ''.'' then res
      else if seg = ''..''
      then (if res \<noteq> [] \<and> last res \<noteq> ''..'' then butlast res
            else if allowAboveRoot then res @ [''..''] else res)
      else res @ [seg])"

definition normalizeString :: "bool \<Rightarrow> string \<Rightarrow> string" where
  "normalizeString allowAboveRoot p =
     joinSegments (foldl (normalizeStep allowAboveRoot) [] (splitStr (CHR ''/'') p))"

definition pathNormalize :: "string \<Rightarrow> string" where
  "pathNormalize p =
     (if p = [] then ''.''
      else
        (let isAbsolute = (hd p = CHR ''/'');
             trailingSeparator = (last p = CHR ''/'');
             q = normalizeString (\<not> isAbsolute) p
         in if q = [] then (if isAbsolute then ''/'' else if trailingSeparator then ''./'' else ''.'')
            else (if isAbsolute then ''/'' else []) @ q @ (if trailingSeparator then ''/'' else [])))"

definition pathJoin :: "string list \<Rightarrow> string" where
  "pathJoin parts =
     (let joined = joinSegments (filter (\<lambda>a. a \<noteq> []) parts)
      in if joined = [] then ''.'' else pathNormalize joined)"

text \<open>\<^verbatim>\<open>String(n)\<close> of a natural number.\<close>

fun showNat :: "nat \<Rightarrow> string" where
  "showNat n =
     (if n < 10 then [char_of (48 + n)]
      else showNat (n div 10) @ [char_of (48 + n mod 10)])"

section \<open>Trace events (trace-types.ts)\<close>

record ContextOptionsEvent =
  monotonicTime :: int
  title :: "string option"

record BeforeEvent =
  callId :: string
  startTime :: int
  apiName :: string
  params :: "(string \<times> string) list"

text \<open>The \<^verbatim>\<open>error\<close> object of an after event and of a page error.\<close>

record ErrorInfo =
  message :: string
  stack :: "string option"

record AfterEvent =
  callId :: string
  endTime :: int
  error :: "ErrorInfo option"

record ScreencastFrameEvent =
  sha1 :: string
  timestamp :: int

text \<open>\<open>locationUrl\<close> is \<^verbatim>\<open>location?.url\<close>; \<open>text_field\<close> is the field \<^verbatim>\<open>text\<close>.\<close>

record ConsoleEvent =
  messageType :: string
  text_field :: string
  locationUrl :: "string option"
  time :: int

record LogEvent =
  callId :: string
  time :: int
  message :: string

text \<open>\<open>method_field\<close> is the field \<^verbatim>\<open>method\<close>; \<open>error\<close> is \<^verbatim>\<open>params.error?.error\<close>.\<close>

record BrowserEvent =
  time :: int
  method_field :: string
  error :: "ErrorInfo option"

text \<open>The shape shared by \<^verbatim>\<open>StdoutEvent\<close> and \<^verbatim>\<open>StderrEvent\<close>.\<close>

record StdoutEvent =
  timestamp :: int
  text_field :: string

type_synonym StderrEvent = StdoutEvent

record TestErrorEvent =
  message :: string

text \<open>
  The union \<^verbatim>\<open>TraceEvent\<close>, one constructor per value of the discriminator \<^verbatim>\<open>type\<close>
  (\<open>Event\<close> is \<^verbatim>\<open>"event"\<close>, \<open>Error\<close> is \<^verbatim>\<open>"error"\<close>). \<open>Other\<close> is any decoded value
  with another \<^verbatim>\<open>type\<close> or none.
\<close>

datatype TraceEvent =
    ContextOptions ContextOptionsEvent
  | Before BeforeEvent
  | After AfterEvent
  | ScreencastFrame ScreencastFrameEvent
  | Console ConsoleEvent
  | Log LogEvent
  | Event BrowserEvent
  | Input
  | FrameSnapshot
  | Stdout StdoutEvent
  | Stderr StderrEvent
  | Error TestErrorEvent
  | Other

text \<open>
  An untyped read of a top-level field of an event, as in
  \<^verbatim>\<open>(lastEvent as BeforeEvent)?.startTime\<close>: \<open>None\<close> when the event has no such field.
\<close>

fun startTimeField :: "TraceEvent \<Rightarrow> int option" where
  "startTimeField (Before b) = Some (BeforeEvent.startTime b)"
| "startTimeField _ = None"

fun endTimeField :: "TraceEvent \<Rightarrow> int option" where
  "endTimeField (After a) = Some (AfterEvent.endTime a)"
| "endTimeField _ = None"

fun timestampField :: "TraceEvent \<Rightarrow> int option" where
  "timestampField (ScreencastFrame s) = Some (ScreencastFrameEvent.timestamp s)"
| "timestampField (Stdout s) = Some (StdoutEvent.timestamp s)"
| "timestampField (Stderr s) = Some (StdoutEvent.timestamp s)"
| "timestampField _ = None"

section \<open>The parsed trace context\<close>

datatype Status = Passed | Failed | Unknown

text \<open>\<^verbatim>\<open>BeforeEvent & { endTime?: number; error?: string }\<close>\<close>

record Action = BeforeEvent +
  endTime :: "int option"
  error :: "string option"

record TraceContext =
  tracePath :: string
  testName :: string
  duration :: "int option"
  status :: Status
  errorTime :: "int option"
  errorMessage :: "string option"
  screenshots :: "ScreencastFrameEvent list"
  consoleMessages :: "ConsoleEvent list"
  errors :: "BrowserEvent list"
  actions :: "Action list"
  logs :: "LogEvent list"

section \<open>Reading the trace files\<close>

text \<open>
  The outcome of \<^verbatim>\<open>JSON.parse(line)\<close>: it throws, or it returns \<open>null\<close> (the line
  \<^verbatim>\<open>null\<close>), or it returns another value. The decoder itself is a parameter of the
  functions that read files.
\<close>

datatype 'a JsonResult = SyntaxError | JsonNull | JsonValue 'a

text \<open>
  The files the tool reads: the regular files of the trace directory with their
  contents, in the order \<^verbatim>\<open>readdirSync\<close> lists them, and the content of
  \<^verbatim>\<open>error-context.md\<close> in the parent directory when it exists.
\<close>

record TraceFiles =
  files :: "(string \<times> string) list"
  errorContextMd :: "string option"

text \<open>
  One step of the \<^verbatim>\<open>map\<close> in \<^verbatim>\<open>parseJsonlFile\<close>: the decoded value or \<open>null\<close>, and the
  lines written to stderr.
\<close>

definition parseLine :: "(string \<Rightarrow> 'a JsonResult) \<Rightarrow> string \<Rightarrow> 'a option \<times> string list" where
  "parseLine JSON_parse line =
     (case JSON_parse line of
        SyntaxError \<Rightarrow> (None, [''Failed to parse line: '' @ slice 0 100 line @ ''...''])
      | JsonNull \<Rightarrow> (None, [])
      | JsonValue v \<Rightarrow> (Some v, []))"

text \<open>
  \<^verbatim>\<open>parseJsonlFile\<close>: the events and the warnings written to stderr. The argument is
  the content of the file, \<open>None\<close> when the file does not exist.
\<close>

definition parseJsonlFile ::
  "(string \<Rightarrow> 'a JsonResult) \<Rightarrow> string option \<Rightarrow> 'a list \<times> string list" where
  "parseJsonlFile JSON_parse file =
     (case file of
        None \<Rightarrow> ([], [])
      | Some content \<Rightarrow>
          (let lines = filter (\<lambda>line. trim line \<noteq> []) (splitStr (CHR 0x0A) content);
               parsed = map (parseLine JSON_parse) lines
           in (List.map_filter fst parsed, concat (map snd parsed))))"

text \<open>The file names matched by \<^verbatim>\<open>/^\d+-trace\.trace$/\<close>.\<close>

definition isShardName :: "string \<Rightarrow> bool" where
  "isShardName f =
     (let ds = takeWhile isDigit f in ds \<noteq> [] \<and> drop (length ds) f = ''-trace.trace'')"

text \<open>\<^verbatim>\<open>isKeyAction\<close>: the API name contains one of the listed names.\<close>

definition keyActions :: "string list" where
  "keyActions =
     [''page.goto'', ''page.click'', ''locator.click'', ''locator.fill'', ''locator.type'',
      ''locator.press'', ''page.fill'', ''page.type'', ''expect.toHaveValue'',
      ''expect.toBeVisible'', ''expect.toHaveText'', ''expect.toHaveURL'',
      ''expect.toHaveTitle'', ''expect.not.toBeVisible'']"

definition isKeyAction :: "string \<Rightarrow> bool" where
  "isKeyAction name = list_ex (\<lambda>action. includesStr name action) keyActions"

section \<open>The context builder (parseTrace)\<close>

text \<open>The local constants of \<^verbatim>\<open>parseTrace\<close>, each a function of the event lists.\<close>

definition contextOptions :: "TraceEvent list \<Rightarrow> ContextOptionsEvent option" where
  "contextOptions browserTrace =
     (case [c. ContextOptions c \<leftarrow> browserTrace] of [] \<Rightarrow> None | c # _ \<Rightarrow> Some c)"

definition beforeEvents :: "TraceEvent list \<Rightarrow> BeforeEvent list" where
  "beforeEvents browserTrace = [b. Before b \<leftarrow> browserTrace]"

definition afterEvents :: "TraceEvent list \<Rightarrow> AfterEvent list" where
  "afterEvents browserTrace = [a. After a \<leftarrow> browserTrace]"

text \<open>\<^verbatim>\<open>new Map(afterEvents.map((e) => [e.callId, e]))\<close>: a later entry replaces an earlier one.\<close>

definition afterMap :: "AfterEvent list \<Rightarrow> string \<Rightarrow> AfterEvent option" where
  "afterMap as = map_of (rev (map (\<lambda>e. (AfterEvent.callId e, e)) as))"

definition mergeAction :: "(string \<Rightarrow> AfterEvent option) \<Rightarrow> BeforeEvent \<Rightarrow> Action" where
  "mergeAction m before =
     (let after = m (BeforeEvent.callId before)
      in BeforeEvent.extend before
           \<lparr> Action.endTime = map_option AfterEvent.endTime after,
             Action.error = map_option ErrorInfo.message (Option.bind after AfterEvent.error) \<rparr>)"

definition isAssertionLine :: "TraceEvent \<Rightarrow> bool" where
  "isAssertionLine event =
     (case event of
        Stdout s \<Rightarrow> includesStr (StdoutEvent.text_field s) ''Error:''
                     \<or> includesStr (StdoutEvent.text_field s) ''Expected''
      | Stderr s \<Rightarrow> includesStr (StdoutEvent.text_field s) ''Error:''
                     \<or> includesStr (StdoutEvent.text_field s) ''Expected''
      | _ \<Rightarrow> False)"

definition assertionError :: "TraceEvent list \<Rightarrow> StdoutEvent option" where
  "assertionError testTrace =
     (case find isAssertionLine testTrace of
        Some (Stdout s) \<Rightarrow> Some s
      | Some (Stderr s) \<Rightarrow> Some s
      | _ \<Rightarrow> None)"

definition pageErrors :: "TraceEvent list \<Rightarrow> BrowserEvent list" where
  "pageErrors browserTrace =
     [e. Event e \<leftarrow> browserTrace, BrowserEvent.method_field e = ''pageError'']"

text \<open>\<open>statusInfo\<close>: the status, the error message and the error time.\<close>

definition statusInfo ::
  "TraceEvent list \<Rightarrow> TraceEvent list \<Rightarrow> Status \<times> string option \<times> int option" where
  "statusInfo testTrace browserTrace =
     (case assertionError testTrace of
        Some s \<Rightarrow> (Failed, Some (StdoutEvent.text_field s), Some (StdoutEvent.timestamp s))
      | None \<Rightarrow>
          (case pageErrors browserTrace of
             firstError # _ \<Rightarrow>
               (Failed, map_option ErrorInfo.message (BrowserEvent.error firstError),
                Some (BrowserEvent.time firstError))
           | [] \<Rightarrow> (Passed, None, None)))"

definition traceStartTime :: "TraceEvent list \<Rightarrow> int" where
  "traceStartTime browserTrace =
     the (orNum (map_option monotonicTime (contextOptions browserTrace)) (Some 0))"

definition lastEvent :: "TraceEvent list \<Rightarrow> TraceEvent option" where
  "lastEvent browserTrace = (if browserTrace = [] then None else Some (last browserTrace))"

definition traceEndTime :: "TraceEvent list \<Rightarrow> int" where
  "traceEndTime browserTrace =
     (let l = lastEvent browserTrace
      in the (orNum (Option.bind l startTimeField)
               (orNum (Option.bind l endTimeField)
                 (orNum (Option.bind l timestampField)
                   (Some (traceStartTime browserTrace))))))"

text \<open>
  The body of \<^verbatim>\<open>parseTrace\<close> after the two event lists have been read
  (from \<^verbatim>\<open>contextOptions\<close> to the returned object).
\<close>

definition buildContext :: "string \<Rightarrow> TraceEvent list \<Rightarrow> TraceEvent list \<Rightarrow> TraceContext" where
  "buildContext traceDir testTrace browserTrace =
     (let info = statusInfo testTrace browserTrace
      in \<lparr> tracePath = traceDir,
           testName =
             the (orStr (Option.bind (contextOptions browserTrace) title)
                        (Some (basename traceDir))),
           duration = Some (traceEndTime browserTrace - traceStartTime browserTrace),
           status = fst info,
           errorTime = snd (snd info),
           errorMessage = fst (snd info),
           screenshots = [s. ScreencastFrame s \<leftarrow> browserTrace],
           consoleMessages = [c. Console c \<leftarrow> browserTrace],
           errors = pageErrors browserTrace,
           actions =
             map (mergeAction (afterMap (afterEvents browserTrace)))
               (filter (\<lambda>e. isKeyAction (BeforeEvent.apiName e)) (beforeEvents browserTrace)),
           logs = [l. Log l \<leftarrow> browserTrace] \<rparr>)"

text \<open>The two event lists \<^verbatim>\<open>parseTrace\<close> reads from the trace directory.\<close>

definition readTestTrace ::
  "(string \<Rightarrow> TraceEvent JsonResult) \<Rightarrow> TraceFiles \<Rightarrow> TraceEvent list" where
  "readTestTrace JSON_parse fs =
     fst (parseJsonlFile JSON_parse (map_of (files fs) ''test.trace''))"

text \<open>
  The shard names in the order of \<^verbatim>\<open>Array.prototype.sort()\<close>, which compares strings by
  code units.
\<close>

definition traceFiles :: "TraceFiles \<Rightarrow> string list" where
  "traceFiles fs = sort (filter isShardName (map fst (files fs)))"

definition readBrowserTrace ::
  "(string \<Rightarrow> TraceEvent JsonResult) \<Rightarrow> TraceFiles \<Rightarrow> TraceEvent list" where
  "readBrowserTrace JSON_parse fs =
     concat (map (\<lambda>f. fst (parseJsonlFile JSON_parse (map_of (files fs) f))) (traceFiles fs))"

text \<open>
  \<^verbatim>\<open>parseTrace(traceDir)\<close>. The warnings of the line parser go to stderr and are not part
  of the result.
\<close>

definition parseTrace ::
  "(string \<Rightarrow> TraceEvent JsonResult) \<Rightarrow> TraceFiles \<Rightarrow> string \<Rightarrow> TraceContext" where
  "parseTrace JSON_parse fs traceDir =
     buildContext traceDir (readTestTrace JSON_parse fs) (readBrowserTrace JSON_parse fs)"

section \<open>The nearest-screenshot search (getScreenshotsAround)\<close>

text \<open>\<^verbatim>\<open>xs.map((x, idx) => f(x, idx))\<close>: a map that also passes the index.\<close>

definition mapi :: "('a \<Rightarrow> nat \<Rightarrow> 'b) \<Rightarrow> 'a list \<Rightarrow> 'b list" where
  "mapi f xs = map (\<lambda>(x, i). f x i) (zip xs [0..<length xs])"

record ScreenshotEntry =
  index :: int
  path :: string
  timestamp :: int

record ScreenshotResult =
  target :: string
  targetIndex :: int
  timestamp :: int
  before :: "ScreenshotEntry list"
  after :: "ScreenshotEntry list"

definition getScreenshotPath :: "string \<Rightarrow> string \<Rightarrow> string" where
  "getScreenshotPath traceDir sha = pathJoin [traceDir, ''resources'', sha]"

text \<open>
  The callback of the \<^verbatim>\<open>reduce\<close> that finds the closest screenshot, applied to the best
  index so far and to a screenshot with its index. A best index outside the array
  stands for the distance \<open>Infinity\<close>.
\<close>

definition closestStep ::
  "ScreencastFrameEvent list \<Rightarrow> int \<Rightarrow> nat \<Rightarrow> ScreencastFrameEvent \<times> nat \<Rightarrow> nat" where
  "closestStep sortedShots t bestIndex sc =
     (case sc of (screenshot, currentIndex) \<Rightarrow>
        (let currentDiff = \<bar>ScreencastFrameEvent.timestamp screenshot - t\<bar>
         in case at sortedShots bestIndex of
              None \<Rightarrow> currentIndex
            | Some bestScreenshot \<Rightarrow>
                if currentDiff < \<bar>ScreencastFrameEvent.timestamp bestScreenshot - t\<bar>
                then currentIndex else bestIndex))"

definition closestIndex :: "ScreencastFrameEvent list \<Rightarrow> int \<Rightarrow> nat" where
  "closestIndex sortedShots t =
     foldl (closestStep sortedShots t) 0 (zip sortedShots [0..<length sortedShots])"

text \<open>The result returned when there is no screenshot.\<close>

definition noScreenshot :: ScreenshotResult where
  "noScreenshot =
     \<lparr> target = [], targetIndex = - 1, ScreenshotResult.timestamp = 0,
       before = [], after = [] \<rparr>"

definition getScreenshotsAround ::
  "ScreencastFrameEvent list \<Rightarrow> int \<Rightarrow> int \<Rightarrow> string \<Rightarrow> ScreenshotResult" where
  "getScreenshotsAround shots t contextCount traceDir =
     (let sortedShots = sort_key ScreencastFrameEvent.timestamp shots
      in if length sortedShots = 0 then noScreenshot
         else
           (let ci = closestIndex sortedShots t
            in case at sortedShots ci of
                 None \<Rightarrow> noScreenshot
               | Some tgt \<Rightarrow>
                   (let c = int ci;
                        lo = max 0 (c - contextCount)
                    in \<lparr> target = getScreenshotPath traceDir (sha1 tgt),
                         targetIndex = c,
                         ScreenshotResult.timestamp = ScreencastFrameEvent.timestamp tgt,
                         before =
                           mapi (\<lambda>screenshot idx.
                                   \<lparr> index = lo + int idx,
                                     path = getScreenshotPath traceDir (sha1 screenshot),
                                     ScreenshotEntry.timestamp =
                                       ScreencastFrameEvent.timestamp screenshot \<rparr>)
                             (slice lo c sortedShots),
                         after =
                           mapi (\<lambda>screenshot idx.
                                   \<lparr> index = c + 1 + int idx,
                                     path = getScreenshotPath traceDir (sha1 screenshot),
                                     ScreenshotEntry.timestamp =
                                       ScreencastFrameEvent.timestamp screenshot \<rparr>)
                             (slice (c + 1) (c + 1 + contextCount) sortedShots) \<rparr>)))"

section \<open>The error-context document (loadErrorContext)\<close>

record ErrorContext =
  testName :: string
  errorMessage :: string
  errorLocation :: string

text \<open>The rest of a string after the first occurrence of \<open>needle\<close>, and the text before it.\<close>

fun afterFirst :: "string \<Rightarrow> string \<Rightarrow> string option" where
  "afterFirst needle [] = (if needle = [] then Some [] else None)"
| "afterFirst needle (c # cs) =
     (if startsWith (c # cs) needle then Some (drop (length needle) (c # cs))
      else afterFirst needle cs)"

fun beforeFirst :: "string \<Rightarrow> string \<Rightarrow> string option" where
  "beforeFirst needle [] = (if needle = [] then Some [] else None)"
| "beforeFirst needle (c # cs) =
     (if startsWith (c # cs) needle then Some []
      else map_option ((#) c) (beforeFirst needle cs))"

text \<open>
  The first capture group of \<^verbatim>\<open>content.match(/<label>\s*(.+)/)\<close>, for a label without
  white space at its end. After the first occurrence of the label the white space is
  skipped and the group runs to the end of the line. When only white space follows the
  label, the matcher backtracks and the group is the last character of it that is not a
  line terminator; there is no match when there is none.
\<close>

definition labelCapture :: "string \<Rightarrow> string \<Rightarrow> string option" where
  "labelCapture label content =
     (case afterFirst label content of
        None \<Rightarrow> None
      | Some rest \<Rightarrow>
          (case dropWhile isWhiteSpace rest of
             [] \<Rightarrow>
               (case filter (\<lambda>c. \<not> isLineTerminator c) rest of
                  [] \<Rightarrow> None
                | cs \<Rightarrow> Some [last cs])
           | r \<Rightarrow> Some (takeWhile (\<lambda>c. \<not> isLineTerminator c) r)))"

text \<open>
  The first capture group of \<^verbatim>\<open>/# Error details\s*```\s*([\s\S]*?)```/\<close>: at a given
  position, and at the first position of the content where the expression matches.
\<close>

definition fence :: string where
  "fence = [CHR 0x60, CHR 0x60, CHR 0x60]"

definition errorMatchAt :: "string \<Rightarrow> string option" where
  "errorMatchAt s =
     (if startsWith s ''# Error details''
      then (let r = dropWhile isWhiteSpace (drop 15 s)
            in if startsWith r fence
               then beforeFirst fence (dropWhile isWhiteSpace (drop 3 r))
               else None)
      else None)"

fun errorMatch :: "string \<Rightarrow> string option" where
  "errorMatch [] = errorMatchAt []"
| "errorMatch (c # cs) =
     (case errorMatchAt (c # cs) of Some g \<Rightarrow> Some g | None \<Rightarrow> errorMatch cs)"

definition loadErrorContext :: "TraceFiles \<Rightarrow> ErrorContext option" where
  "loadErrorContext fs =
     (case errorContextMd fs of
        None \<Rightarrow> None
      | Some content \<Rightarrow>
          (case errorMatch content of
             None \<Rightarrow> None
           | Some g \<Rightarrow>
               Some \<lparr> ErrorContext.testName =
                        the (orStr (map_option trim (labelCapture ''- Name:'' content))
                                   (Some ''Unknown test'')),
                      ErrorContext.errorMessage =
                        the (orStr (Some (trim g)) (Some ''Unknown error'')),
                      errorLocation =
                        the (orStr (map_option trim (labelCapture ''- Location:'' content))
                                   (Some ''Unknown location'')) \<rparr>))"

section \<open>The summary projection (commandSummary)\<close>

record SummaryCounts =
  screenshots :: nat
  consoleMessages :: nat
  errors :: nat
  actions :: nat

text \<open>
  The object \<^verbatim>\<open>commandSummary\<close> prints. \<open>duration\<close> is the number of milliseconds that
  the program prints as seconds with two decimals, \<open>None\<close> where it prints
  \<^verbatim>\<open>"unknown"\<close>.
\<close>

record SummaryResult =
  testName :: string
  duration :: "int option"
  status :: Status
  errorTime :: "int option"
  errorMessage :: "string option"
  errorLocation :: "string option"
  counts :: SummaryCounts

definition commandSummary :: "TraceFiles \<Rightarrow> TraceContext \<Rightarrow> SummaryResult" where
  "commandSummary fs ctx =
     (let errorContext = loadErrorContext fs;
          actualStatus = (case errorContext of Some _ \<Rightarrow> Failed | None \<Rightarrow> TraceContext.status ctx);
          actualErrorMessage =
            orStr (map_option ErrorContext.errorMessage errorContext) (TraceContext.errorMessage ctx)
      in \<lparr> SummaryResult.testName = TraceContext.testName ctx,
           SummaryResult.duration = orNum (TraceContext.duration ctx) None,
           SummaryResult.status = actualStatus,
           SummaryResult.errorTime = TraceContext.errorTime ctx,
           SummaryResult.errorMessage = map_option (slice 0 500) actualErrorMessage,
           SummaryResult.errorLocation = map_option ErrorContext.errorLocation errorContext,
           counts =
             \<lparr> SummaryCounts.screenshots = length (TraceContext.screenshots ctx),
               SummaryCounts.consoleMessages = length (TraceContext.consoleMessages ctx),
               SummaryCounts.errors = length (TraceContext.errors ctx),
               SummaryCounts.actions = length (TraceContext.actions ctx) \<rparr> \<rparr>)"

section \<open>The diagnostic engine (getDiagnoseResults)\<close>

text \<open>
  The regular expressions of the pattern table use literal characters, \<^verbatim>\<open>.*\<close> and
  \<^verbatim>\<open>\d\<close>, joined by \<^verbatim>\<open>|\<close>, all with the flag \<^verbatim>\<open>i\<close>. An expression is the list of its
  alternatives; \<open>testRx\<close> is \<^verbatim>\<open>RegExp.prototype.test\<close> (a match anywhere in the text).
\<close>

datatype RxAtom = Chr char | AnyStar | Digit

type_synonym Regex = "RxAtom list list"

definition toLower :: "char \<Rightarrow> char" where
  "toLower c = (if CHR ''A'' \<le> c \<and> c \<le> CHR ''Z'' then char_of (of_char c + (32 :: nat)) else c)"

fun matchHere :: "RxAtom list \<Rightarrow> string \<Rightarrow> bool" where
  "matchHere [] s = True"
| "matchHere (AnyStar # r) [] = matchHere r []"
| "matchHere (AnyStar # r) (c # cs) =
     (matchHere r (c # cs) \<or> (\<not> isLineTerminator c \<and> matchHere (AnyStar # r) cs))"
| "matchHere (Chr a # r) [] = False"
| "matchHere (Chr a # r) (c # cs) = (toLower a = toLower c \<and> matchHere r cs)"
| "matchHere (Digit # r) [] = False"
| "matchHere (Digit # r) (c # cs) = (isDigit c \<and> matchHere r cs)"

fun searchRx :: "RxAtom list \<Rightarrow> string \<Rightarrow> bool" where
  "searchRx alt [] = matchHere alt []"
| "searchRx alt (c # cs) = (matchHere alt (c # cs) \<or> searchRx alt cs)"

definition testRx :: "Regex \<Rightarrow> string \<Rightarrow> bool" where
  "testRx rx s = list_ex (\<lambda>alt. searchRx alt s) rx"

definition lit :: "string \<Rightarrow> RxAtom list" where
  "lit s = map Chr s"

record PatternInfo =
  pattern :: Regex
  category :: string
  explanation :: string
  solution :: string

definition errorPatterns :: "PatternInfo list" where
  "errorPatterns =
     [\<lparr> pattern = [lit ''Timed out'' @ [AnyStar] @ lit ''waiting for''],
        category = ''Timeout'',
        explanation = ''A Playwright assertion or wait timed out. The expected element/state did not appear in time.'',
        solution = ''Check screenshots to see actual UI state. May indicate a backend error preventing the UI from updating.'' \<rparr>,
      \<lparr> pattern = [lit ''element'' @ [AnyStar] @ lit ''not found'',
                   lit ''locator'' @ [AnyStar] @ lit ''not found''],
        category = ''Element Not Found'',
        explanation = ''The selector did not match any element in the DOM at the time of the action.'',
        solution = ''Verify the selector is correct and the element exists. Check if a wait is needed.'' \<rparr>,
      \<lparr> pattern = [lit ''navigation'' @ [AnyStar] @ lit ''failed'', lit ''net::ERR_''],
        category = ''Navigation Error'',
        explanation = ''Page navigation failed due to network or server error.'',
        solution = ''Check if the URL is correct and the server is running. Look for network errors in console.'' \<rparr>,
      \<lparr> pattern = [lit ''console.error'', lit ''Uncaught Error'', lit ''Unhandled Promise''],
        category = ''Console Error'',
        explanation = ''JavaScript error logged to browser console.'',
        solution = ''Check the error message and stack trace to identify the source of the error.'' \<rparr>,
      \<lparr> pattern = [lit ''status of 4'' @ [Digit, Digit]],
        category = ''HTTP 4xx Error'',
        explanation = ''Client error response from server (400-499).'',
        solution = ''Check the specific status code and request details.'' \<rparr>,
      \<lparr> pattern = [lit ''status of 5'' @ [Digit, Digit]],
        category = ''HTTP 5xx Error'',
        explanation = ''Server error response (500-599). Backend crashed or unavailable.'',
        solution = ''Check server logs for the actual error.'' \<rparr>,
      \<lparr> pattern = [lit ''ECONNREFUSED'', lit ''ETIMEDOUT''],
        category = ''Connection Error'',
        explanation = ''Failed to connect to a service (database, API, etc.).'',
        solution = ''Verify all services are running and accessible.'' \<rparr>,
      \<lparr> pattern = [lit ''strict mode violation'', lit ''multiple elements''],
        category = ''Strict Mode Violation'',
        explanation = ''Selector matched multiple elements when Playwright expected exactly one.'',
        solution = ''Use a more specific selector to match only the intended element.'' \<rparr>,
      \<lparr> pattern = [lit ''frame'' @ [AnyStar] @ lit ''detached'',
                   lit ''frame'' @ [AnyStar] @ lit ''navigated''],
        category = ''Frame Detached'',
        explanation = ''The frame was removed from the DOM or navigated while an action was in progress.'',
        solution = ''Wait for frame to be stable before interacting, or handle frame lifecycle explicitly.'' \<rparr>,
      \<lparr> pattern = [lit ''dialog'' @ [AnyStar] @ lit ''not handled'', lit ''unexpected dialog''],
        category = ''Unhandled Dialog'',
        explanation = ''A browser dialog (alert/confirm/prompt) appeared but was not handled.'',
        solution = ''Add page.on('' @ [CHR 0x22] @ ''dialog'' @ [CHR 0x22]
                     @ '') handler before triggering the action that shows the dialog.'' \<rparr>]"

definition ignorePatterns :: "Regex list" where
  "ignorePatterns = [[lit ''sentry''], [lit ''ingest.'' @ [AnyStar] @ lit ''sentry'']]"

definition shouldIgnore :: "string \<Rightarrow> string option \<Rightarrow> bool" where
  "shouldIgnore txt location =
     (let combined = txt @ '' '' @ the (orStr location (Some []))
      in list_ex (\<lambda>p. testRx p combined) ignorePatterns)"

definition findPatternInfo :: "string \<Rightarrow> PatternInfo option" where
  "findPatternInfo txt = find (\<lambda>patternInfo. testRx (pattern patternInfo) txt) errorPatterns"

datatype IssueSource = ConsoleSource | PageErrorSource | TestOutputSource

record DiagnosticIssue =
  category :: string
  timestamp :: int
  source :: IssueSource
  text_field :: string
  explanation :: string
  solution :: string
  recovered :: "bool option"

text \<open>The object pushed for a text that matched \<open>patternInfo\<close>.\<close>

definition newIssue :: "PatternInfo \<Rightarrow> int \<Rightarrow> IssueSource \<Rightarrow> string \<Rightarrow> DiagnosticIssue" where
  "newIssue patternInfo t src txt =
     \<lparr> DiagnosticIssue.category = PatternInfo.category patternInfo,
       DiagnosticIssue.timestamp = t,
       source = src,
       DiagnosticIssue.text_field = slice 0 800 txt,
       DiagnosticIssue.explanation = PatternInfo.explanation patternInfo,
       DiagnosticIssue.solution = PatternInfo.solution patternInfo,
       recovered = None \<rparr>"

definition matchIssue :: "int \<Rightarrow> IssueSource \<Rightarrow> string \<Rightarrow> DiagnosticIssue list" where
  "matchIssue t src txt =
     (case findPatternInfo txt of None \<Rightarrow> [] | Some patternInfo \<Rightarrow> [newIssue patternInfo t src txt])"

definition consoleIssues :: "TraceContext \<Rightarrow> DiagnosticIssue list" where
  "consoleIssues ctx =
     concat (map (\<lambda>msg.
        if shouldIgnore (ConsoleEvent.text_field msg) (locationUrl msg) then []
        else matchIssue (ConsoleEvent.time msg) ConsoleSource (ConsoleEvent.text_field msg))
       (TraceContext.consoleMessages ctx))"

definition pageErrorIssues :: "TraceContext \<Rightarrow> DiagnosticIssue list" where
  "pageErrorIssues ctx =
     concat (map (\<lambda>e.
        matchIssue (BrowserEvent.time e) PageErrorSource
          (the (orStr (map_option ErrorInfo.message (BrowserEvent.error e)) (Some []))))
       (TraceContext.errors ctx))"

definition testTraceIssues :: "TraceEvent list \<Rightarrow> DiagnosticIssue list" where
  "testTraceIssues testTrace =
     concat (map (\<lambda>event.
        (case event of
           Stdout s \<Rightarrow> matchIssue (StdoutEvent.timestamp s) TestOutputSource (StdoutEvent.text_field s)
         | Stderr s \<Rightarrow> matchIssue (StdoutEvent.timestamp s) TestOutputSource (StdoutEvent.text_field s)
         | Error e \<Rightarrow>
             if TestErrorEvent.message e = [] then []
             else matchIssue 0 TestOutputSource (TestErrorEvent.message e)
         | _ \<Rightarrow> []))
       testTrace)"

definition errorContextIssues :: "TraceFiles \<Rightarrow> DiagnosticIssue list" where
  "errorContextIssues fs =
     (case loadErrorContext fs of
        None \<Rightarrow> []
      | Some errorContext \<Rightarrow>
          (let errorPatternInfo = findPatternInfo (ErrorContext.errorMessage errorContext)
           in [\<lparr> DiagnosticIssue.category =
                   the (orStr (map_option PatternInfo.category errorPatternInfo)
                              (Some ''Test Assertion Failed'')),
                 DiagnosticIssue.timestamp = 0,
                 source = TestOutputSource,
                 DiagnosticIssue.text_field = slice 0 800 (ErrorContext.errorMessage errorContext),
                 DiagnosticIssue.explanation =
                   the (orStr (map_option PatternInfo.explanation errorPatternInfo)
                      (Some ''A Playwright assertion (expect) timed out or failed. The expected element or state was not found.'')),
                 DiagnosticIssue.solution =
                   the (orStr (map_option PatternInfo.solution errorPatternInfo)
                      (Some ''Check the screenshots to see the actual UI state. The element may not have appeared due to a backend error or timing issue.'')),
                 recovered = None \<rparr>]))"

text \<open>The array \<open>issues\<close> after all pushes, before it is sorted.\<close>

definition collectIssues ::
  "(string \<Rightarrow> TraceEvent JsonResult) \<Rightarrow> TraceFiles \<Rightarrow> TraceContext \<Rightarrow> DiagnosticIssue list" where
  "collectIssues JSON_parse fs ctx =
     consoleIssues ctx @ pageErrorIssues ctx
     @ testTraceIssues (readTestTrace JSON_parse fs) @ errorContextIssues fs"

definition isDuplicate :: "DiagnosticIssue list \<Rightarrow> DiagnosticIssue \<Rightarrow> bool" where
  "isDuplicate acc issue =
     list_ex (\<lambda>existing.
        DiagnosticIssue.category existing = DiagnosticIssue.category issue
        \<and> \<bar>DiagnosticIssue.timestamp existing - DiagnosticIssue.timestamp issue\<bar> < 1000) acc"

text \<open>The \<^verbatim>\<open>reduce\<close> that removes duplicates.\<close>

definition dedupeStep :: "DiagnosticIssue list \<Rightarrow> DiagnosticIssue \<Rightarrow> DiagnosticIssue list" where
  "dedupeStep acc issue = (if isDuplicate acc issue then acc else acc @ [issue])"

definition dedupe :: "DiagnosticIssue list \<Rightarrow> DiagnosticIssue list" where
  "dedupe issues = foldl dedupeStep [] issues"

text \<open>\<^verbatim>\<open>issues.sort((a, b) => a.timestamp - b.timestamp)\<close> is a stable sort.\<close>

definition uniqueIssues ::
  "(string \<Rightarrow> TraceEvent JsonResult) \<Rightarrow> TraceFiles \<Rightarrow> TraceContext \<Rightarrow> DiagnosticIssue list" where
  "uniqueIssues JSON_parse fs ctx =
     dedupe (sort_key DiagnosticIssue.timestamp (collectIssues JSON_parse fs ctx))"

definition isRecovered :: "DiagnosticIssue \<Rightarrow> bool" where
  "isRecovered issue = (recovered issue = Some True)"

definition countCategory :: "(string \<Rightarrow> nat option) \<Rightarrow> DiagnosticIssue \<Rightarrow> (string \<Rightarrow> nat option)" where
  "countCategory byCat issue =
     byCat (DiagnosticIssue.category issue \<mapsto>
       (case byCat (DiagnosticIssue.category issue) of None \<Rightarrow> 0 | Some k \<Rightarrow> k) + 1)"

text \<open>The truth value of a count read from \<open>byCategory\<close>.\<close>

definition truthy :: "nat option \<Rightarrow> bool" where
  "truthy v = (case v of None \<Rightarrow> False | Some k \<Rightarrow> k \<noteq> 0)"

record PrimaryDiagnosis =
  explanation :: string
  recommendation :: string

record ReportedIssue =
  category :: string
  timestamp :: int
  source :: IssueSource
  explanation :: string
  solution :: string
  snippet :: string
  recovered :: "bool option"

record DiagnoseResults =
  summary :: string
  issueCount :: nat
  recoveredCount :: "nat option"
  byCategory :: "string \<Rightarrow> nat option"
  primaryDiagnosis :: PrimaryDiagnosis
  issues :: "ReportedIssue list"

definition reportIssue :: "DiagnosticIssue \<Rightarrow> ReportedIssue" where
  "reportIssue issue =
     \<lparr> ReportedIssue.category = DiagnosticIssue.category issue,
       ReportedIssue.timestamp = DiagnosticIssue.timestamp issue,
       ReportedIssue.source = DiagnosticIssue.source issue,
       ReportedIssue.explanation = DiagnosticIssue.explanation issue,
       ReportedIssue.solution = DiagnosticIssue.solution issue,
       snippet = slice 0 200 (DiagnosticIssue.text_field issue)
                 @ (if length (DiagnosticIssue.text_field issue) > 200 then ''...'' else []),
       ReportedIssue.recovered = DiagnosticIssue.recovered issue \<rparr>"

definition isCritical :: "DiagnosticIssue \<Rightarrow> bool" where
  "isCritical i =
     (\<not> isRecovered i
      \<and> (DiagnosticIssue.category i = ''Test Assertion Failed''
           \<or> DiagnosticIssue.category i = ''HTTP 5xx Error''))"

definition getDiagnoseResults ::
  "(string \<Rightarrow> TraceEvent JsonResult) \<Rightarrow> TraceFiles \<Rightarrow> TraceContext \<Rightarrow> bool \<Rightarrow> DiagnoseResults" where
  "getDiagnoseResults JSON_parse fs ctx verbose =
     (let unique = uniqueIssues JSON_parse fs ctx;
          recoveredIssues = filter isRecovered unique;
          nonRecoveredIssues = filter (\<lambda>issue. \<not> isRecovered issue) unique;
          activeIssues = (if verbose then unique else nonRecoveredIssues);
          byCat = foldl countCategory Map.empty nonRecoveredIssues;
          hasCritical =
            (truthy (byCat ''Test Assertion Failed'') \<or> truthy (byCat ''HTTP 5xx Error''));
          primary =
            (if length activeIssues = 0
             then \<lparr> PrimaryDiagnosis.explanation = ''No known error patterns were detected in the trace.'',
                    recommendation =
                      ''Trace looks clean.''
                      @ (if length recoveredIssues > 0
                         then '' ('' @ showNat (length recoveredIssues)
                              @ '' recovered issue(s) hidden, use --verbose to see)''
                         else [])
                      @ '' If test still fails, check server logs.'' \<rparr>
             else
               (let primaryIssue =
                      (case find isCritical activeIssues of
                         Some i \<Rightarrow> Some i
                       | None \<Rightarrow> at activeIssues 0)
                in \<lparr> PrimaryDiagnosis.explanation =
                       the (orStr (map_option DiagnosticIssue.explanation primaryIssue) (Some [])),
                     recommendation =
                       the (orStr (map_option DiagnosticIssue.solution primaryIssue) (Some [])) \<rparr>));
          recoveryNote =
            (if length recoveredIssues > 0
             then (if verbose
                   then '' (+'' @ showNat (length recoveredIssues) @ '' recovered)''
                   else '' ('' @ showNat (length recoveredIssues) @ '' recovered issue(s) hidden)'')
             else [])
      in \<lparr> summary =
             (if length nonRecoveredIssues = 0
              then [CHR 0xE2, CHR 0x9C, CHR 0x85] @ '' No known error patterns detected'' @ recoveryNote
              else if hasCritical
              then [CHR 0xF0, CHR 0x9F, CHR 0x9A, CHR 0xA8] @ '' CRITICAL ISSUES FOUND - ''
                   @ showNat (length nonRecoveredIssues) @ '' unique error(s) detected'' @ recoveryNote
              else [CHR 0xE2, CHR 0x9A, CHR 0xA0, CHR 0xEF, CHR 0xB8, CHR 0x8F] @ ''  ''
                   @ showNat (length nonRecoveredIssues) @ '' potential issue(s) detected'' @ recoveryNote),
           issueCount = length nonRecoveredIssues,
           recoveredCount =
             (if length recoveredIssues > 0 then Some (length recoveredIssues) else None),
           byCategory = byCat,
           primaryDiagnosis = primary,
           issues = map reportIssue (slice 0 10 activeIssues) \<rparr>)"


section \<open>Notions used in the statements\<close>

text \<open>
  The time an event of one of the four timestamped collections carries: the timestamp of
  a screencast frame, the time of a console message or of a browser event, the start
  time of an action start.
\<close>

fun eventTime :: "TraceEvent \<Rightarrow> int option" where
  "eventTime (ScreencastFrame s) = Some (ScreencastFrameEvent.timestamp s)"
| "eventTime (Console c) = Some (ConsoleEvent.time c)"
| "eventTime (Event e) = Some (BrowserEvent.time e)"
| "eventTime (Before b) = Some (BeforeEvent.startTime b)"
| "eventTime _ = None"

text \<open>Two issues do not collide: they differ in category or lie at least 1000 ms apart.\<close>

definition apart :: "DiagnosticIssue \<Rightarrow> DiagnosticIssue \<Rightarrow> bool" where
  "apart a b = (DiagnosticIssue.category a = DiagnosticIssue.category b \<longrightarrow>
                 1000 \<le> \<bar>DiagnosticIssue.timestamp a - DiagnosticIssue.timestamp b\<bar>)"

text \<open>
  A kept issue stands for \<open>x\<close>: same category, not later than \<open>x\<close>, less than 1000 ms
  before it.
\<close>

definition covers :: "DiagnosticIssue list \<Rightarrow> DiagnosticIssue \<Rightarrow> bool" where
  "covers kept x = (\<exists>k\<in>set kept. DiagnosticIssue.category k = DiagnosticIssue.category x
       \<and> DiagnosticIssue.timestamp k \<le> DiagnosticIssue.timestamp x
       \<and> DiagnosticIssue.timestamp x - DiagnosticIssue.timestamp k < 1000)"

section \<open>Example inputs\<close>

text \<open>A JSON string literal, and two lines of a shard file: one screencast frame each.\<close>

definition quoted :: "string \<Rightarrow> string" where
  "quoted s = [CHR 0x22] @ s @ [CHR 0x22]"

definition lateFrameLine :: string where
  "lateFrameLine =
     ''{'' @ quoted ''type'' @ '':'' @ quoted ''screencast-frame'' @ '',''
     @ quoted ''sha1'' @ '':'' @ quoted ''a.jpeg'' @ '','' @ quoted ''timestamp'' @ '':200}''"

definition earlyFrameLine :: string where
  "earlyFrameLine =
     ''{'' @ quoted ''type'' @ '':'' @ quoted ''screencast-frame'' @ '',''
     @ quoted ''sha1'' @ '':'' @ quoted ''b.jpeg'' @ '','' @ quoted ''timestamp'' @ '':100}''"

text \<open>
  A stand-in for \<^verbatim>\<open>JSON.parse\<close> in the examples. It agrees with \<^verbatim>\<open>JSON.parse\<close> on the
  lines it is applied to there: \<^verbatim>\<open>null\<close>, \<^verbatim>\<open>{}\<close>, \<^verbatim>\<open>[]\<close>, the two frame lines and the
  malformed \<^verbatim>\<open>{oops\<close>.
\<close>

definition sampleJson :: "string \<Rightarrow> TraceEvent JsonResult" where
  "sampleJson line =
     (if line = ''null'' then JsonNull
      else if line = ''{}'' \<or> line = ''[]'' then JsonValue Other
      else if line = lateFrameLine
      then JsonValue (ScreencastFrame \<lparr> sha1 = ''a.jpeg'', ScreencastFrameEvent.timestamp = 200 \<rparr>)
      else if line = earlyFrameLine
      then JsonValue (ScreencastFrame \<lparr> sha1 = ''b.jpeg'', ScreencastFrameEvent.timestamp = 100 \<rparr>)
      else SyntaxError)"

definition noFiles :: TraceFiles where
  "noFiles = \<lparr> files = [], errorContextMd = None \<rparr>"

text \<open>A trace directory with two shards; the shard that sorts first holds the later frame.\<close>

definition twoShards :: TraceFiles where
  "twoShards =
     \<lparr> files = [(''1-trace.trace'', earlyFrameLine @ [CHR 0x0A]),
                (''0-trace.trace'', lateFrameLine @ [CHR 0x0A])],
       errorContextMd = None \<rparr>"

text \<open>Runner output with and without an assertion line, and a browser trace with a page error.\<close>

definition failingOutput :: "TraceEvent list" where
  "failingOutput =
     [Stdout \<lparr> StdoutEvent.timestamp = 5, StdoutEvent.text_field = ''Running 1 test'' \<rparr>,
      Stderr \<lparr> StdoutEvent.timestamp = 9, StdoutEvent.text_field = ''Error: expect(locator).toBeVisible()'' \<rparr>,
      Stdout \<lparr> StdoutEvent.timestamp = 12, StdoutEvent.text_field = ''Expected: visible'' \<rparr>]"

definition expectedOutput :: "TraceEvent list" where
  "expectedOutput =
     [Stdout \<lparr> StdoutEvent.timestamp = 5, StdoutEvent.text_field = ''Running 1 test'' \<rparr>,
      Stdout \<lparr> StdoutEvent.timestamp = 7, StdoutEvent.text_field = ''Expected: visible'' \<rparr>,
      Stderr \<lparr> StdoutEvent.timestamp = 9, StdoutEvent.text_field = ''Error: expect(locator).toBeVisible()'' \<rparr>]"

text \<open>A browser event that is no page error.\<close>

definition closeEvent :: TraceEvent where
  "closeEvent = Event \<lparr> BrowserEvent.time = 1, method_field = ''close'', BrowserEvent.error = None \<rparr>"

definition quietOutput :: "TraceEvent list" where
  "quietOutput =
     [Stdout \<lparr> StdoutEvent.timestamp = 5, StdoutEvent.text_field = ''Running 1 test'' \<rparr>]"

definition pageErrorTrace :: "TraceEvent list" where
  "pageErrorTrace =
     [Event \<lparr> BrowserEvent.time = 3, method_field = ''pageError'',
              BrowserEvent.error = Some \<lparr> ErrorInfo.message = ''boom'', stack = None \<rparr> \<rparr>,
      Event \<lparr> BrowserEvent.time = 4, method_field = ''pageError'',
              BrowserEvent.error = Some \<lparr> ErrorInfo.message = ''second'', stack = None \<rparr> \<rparr>]"

text \<open>A trace in chronological order.\<close>

definition chronologicalTrace :: "TraceEvent list" where
  "chronologicalTrace =
     [ScreencastFrame \<lparr> sha1 = ''a.jpeg'', ScreencastFrameEvent.timestamp = 100 \<rparr>,
      Console \<lparr> messageType = ''log'', ConsoleEvent.text_field = ''hi'', locationUrl = None,
                ConsoleEvent.time = 150 \<rparr>,
      ScreencastFrame \<lparr> sha1 = ''b.jpeg'', ScreencastFrameEvent.timestamp = 200 \<rparr>]"

text \<open>A trace whose frames are in order of time although a later console message stands first.\<close>

definition strayTrace :: "TraceEvent list" where
  "strayTrace =
     [Console \<lparr> messageType = ''log'', ConsoleEvent.text_field = ''late'', locationUrl = None,
                ConsoleEvent.time = 300 \<rparr>,
      ScreencastFrame \<lparr> sha1 = ''a.jpeg'', ScreencastFrameEvent.timestamp = 100 \<rparr>,
      ScreencastFrame \<lparr> sha1 = ''b.jpeg'', ScreencastFrameEvent.timestamp = 200 \<rparr>]"

text \<open>Two action starts without an end: a wait, which is no key action, and a click.\<close>

definition hangingWait :: BeforeEvent where
  "hangingWait =
     \<lparr> BeforeEvent.callId = ''call@7'', startTime = 10, apiName = ''page.waitForTimeout'',
       params = [] \<rparr>"

definition hangingClick :: BeforeEvent where
  "hangingClick =
     \<lparr> BeforeEvent.callId = ''call@8'', startTime = 20, apiName = ''locator.click'',
       params = [(''selector'', ''button'')] \<rparr>"

definition otherEnd :: AfterEvent where
  "otherEnd = \<lparr> AfterEvent.callId = ''call@3'', AfterEvent.endTime = 15, AfterEvent.error = None \<rparr>"

text \<open>A context that starts at 100 ms.\<close>

definition startsAt100 :: TraceEvent where
  "startsAt100 = ContextOptions \<lparr> monotonicTime = 100, title = Some ''todo app loads'' \<rparr>"

text \<open>Five screenshots, not in order of time.\<close>

definition fiveShots :: "ScreencastFrameEvent list" where
  "fiveShots =
     [\<lparr> sha1 = ''c.jpeg'', ScreencastFrameEvent.timestamp = 30 \<rparr>,
      \<lparr> sha1 = ''a.jpeg'', ScreencastFrameEvent.timestamp = 10 \<rparr>,
      \<lparr> sha1 = ''e.jpeg'', ScreencastFrameEvent.timestamp = 50 \<rparr>,
      \<lparr> sha1 = ''b.jpeg'', ScreencastFrameEvent.timestamp = 20 \<rparr>,
      \<lparr> sha1 = ''d.jpeg'', ScreencastFrameEvent.timestamp = 40 \<rparr>]"

text \<open>Console messages that match the timeout signature.\<close>

definition timeoutMessage :: "int \<Rightarrow> TraceEvent" where
  "timeoutMessage t =
     Console \<lparr> messageType = ''error'', ConsoleEvent.text_field = ''Timed out waiting for foo'',
               locationUrl = None, ConsoleEvent.time = t \<rparr>"

definition burstTrace :: "TraceEvent list" where
  "burstTrace = [timeoutMessage 1500, timeoutMessage 0, timeoutMessage 500]"

definition longTrace :: "TraceEvent list" where
  "longTrace = map (\<lambda>k. timeoutMessage (1000 * int k)) [0..<12]"

text \<open>An error-context document.\<close>

definition errorContextExample :: string where
  "errorContextExample =
     ''# Test info'' @ [CHR 0x0A] @ ''- Name: todo app loads'' @ [CHR 0x0A]
     @ ''- Location: e2e/todo.spec.ts:3'' @ [CHR 0x0A] @ [CHR 0x0A]
     @ ''# Error details'' @ [CHR 0x0A] @ fence @ [CHR 0x0A]
     @ ''Expected visible, got hidden'' @ [CHR 0x0A] @ fence @ [CHR 0x0A]"

definition failedRun :: TraceFiles where
  "failedRun = \<lparr> files = [], errorContextMd = Some errorContextExample \<rparr>"

section \<open>Properties of the context builder\<close>

lemma buildContext_sel:
  "TraceContext.tracePath (buildContext d tt bt) = d"
  "TraceContext.duration (buildContext d tt bt) = Some (traceEndTime bt - traceStartTime bt)"
  "TraceContext.status (buildContext d tt bt) = fst (statusInfo tt bt)"
  "TraceContext.errorMessage (buildContext d tt bt) = fst (snd (statusInfo tt bt))"
  "TraceContext.errorTime (buildContext d tt bt) = snd (snd (statusInfo tt bt))"
  "TraceContext.screenshots (buildContext d tt bt) = [s. ScreencastFrame s \<leftarrow> bt]"
  "TraceContext.consoleMessages (buildContext d tt bt) = [c. Console c \<leftarrow> bt]"
  "TraceContext.errors (buildContext d tt bt) = pageErrors bt"
  "TraceContext.actions (buildContext d tt bt) =
     map (mergeAction (afterMap (afterEvents bt)))
       (filter (\<lambda>e. isKeyAction (BeforeEvent.apiName e)) (beforeEvents bt))"
  "TraceContext.logs (buildContext d tt bt) = [l. Log l \<leftarrow> bt]"
  by (simp_all add: buildContext_def Let_def)

lemma find_first:
  "find P xs = Some x \<Longrightarrow> \<exists>pre post. xs = pre @ x # post \<and> P x \<and> list_all (\<lambda>e. \<not> P e) pre"
proof (induction xs)
  case Nil then show ?case by simp
next
  case (Cons a xs)
  show ?case
  proof (cases "P a")
    case True
    with Cons.prems have "a = x" by simp
    with True show ?thesis by (intro exI [of _ "[]"] exI [of _ xs]) simp
  next
    case False
    with Cons.prems have "find P xs = Some x" by simp
    from Cons.IH [OF this] obtain pre post where
      "xs = pre @ x # post" "P x" "list_all (\<lambda>e. \<not> P e) pre" by blast
    with False show ?thesis by (intro exI [of _ "a # pre"] exI [of _ post]) simp
  qed
qed

lemma find_None_iff_ex: "(find P xs = None) = (\<not> list_ex P xs)"
  by (induction xs) auto

lemma assertionError_Some:
  assumes "list_ex isAssertionLine testTrace"
  shows "\<exists>pre ev post s. testTrace = pre @ ev # post \<and> (ev = Stdout s \<or> ev = Stderr s)
           \<and> (includesStr (StdoutEvent.text_field s) ''Error:'' \<or> includesStr (StdoutEvent.text_field s) ''Expected'')
           \<and> list_all (\<lambda>e. \<not> isAssertionLine e) pre
           \<and> assertionError testTrace = Some s"
proof -
  from assms obtain ev where f: "find isAssertionLine testTrace = Some ev"
    using find_None_iff_ex [of isAssertionLine testTrace] by (cases "find isAssertionLine testTrace") auto
  from find_first [OF f] obtain pre post where
    d: "testTrace = pre @ ev # post" "isAssertionLine ev" "list_all (\<lambda>e. \<not> isAssertionLine e) pre"
    by blast
  from d(2) obtain s where s: "ev = Stdout s \<or> ev = Stderr s"
    by (cases ev) (auto simp: isAssertionLine_def)
  with d(2) have m: "includesStr (StdoutEvent.text_field s) ''Error:'' \<or> includesStr (StdoutEvent.text_field s) ''Expected''"
    by (auto simp: isAssertionLine_def)
  from f s have "assertionError testTrace = Some s"
    by (auto simp: assertionError_def)
  with d s m show ?thesis by blast
qed

lemma assertionError_None:
  "\<not> list_ex isAssertionLine testTrace \<Longrightarrow> assertionError testTrace = None"
  using find_None_iff_ex [of isAssertionLine testTrace] by (simp add: assertionError_def)

lemma statusInfo_cases:
  "fst (statusInfo tt bt) = Passed \<or> fst (statusInfo tt bt) = Failed"
  by (simp add: statusInfo_def split: option.splits list.splits)

text \<open>
  Claim C10. The type of the status has the three values passed, failed and unknown,
  but the context builder never produces unknown: for every content of the trace
  directory and every event list, the status it computes is passed or failed.
\<close>

theorem status_never_unknown:
  "(TraceContext.status (parseTrace JSON_parse fs traceDir) = Passed
      \<or> TraceContext.status (parseTrace JSON_parse fs traceDir) = Failed)
   \<and> TraceContext.status (parseTrace JSON_parse fs traceDir) \<noteq> Unknown
   \<and> TraceContext.status (buildContext traceDir testTrace browserTrace) \<noteq> Unknown"
proof -
  have "TraceContext.status (buildContext d tt bt) = Passed
        \<or> TraceContext.status (buildContext d tt bt) = Failed" for d tt bt
    unfolding buildContext_sel by (rule statusInfo_cases)
  from this [of traceDir "readTestTrace JSON_parse fs" "readBrowserTrace JSON_parse fs"]
    this [of traceDir testTrace browserTrace]
  show ?thesis unfolding parseTrace_def by auto
qed

theorem status_never_unknown_witness:
  "TraceContext.status (parseTrace sampleJson twoShards ''/results/run/unzipped'') = Passed
   \<and> TraceContext.status (buildContext ''/results/run/unzipped'' failingOutput pageErrorTrace) = Failed"
proof -
  have ev: "TraceContext.status (buildContext ''/results/run/unzipped'' failingOutput pageErrorTrace) = Failed"
    by (simp add: buildContext_sel statusInfo_def assertionError_def failingOutput_def
        isAssertionLine_def startsWith_def)
  have "TraceContext.status (parseTrace sampleJson twoShards ''/results/run/unzipped'') \<noteq> Failed"
    by code_simp
  with status_never_unknown [of sampleJson twoShards "''/results/run/unzipped''"] ev
  show ?thesis by simp
qed

lemma startsWith_iff: "startsWith s p = (\<exists>b. s = p @ b)"
proof
  assume "startsWith s p"
  then have "s = p @ drop (length p) s"
    unfolding startsWith_def by (metis append_take_drop_id)
  then show "\<exists>b. s = p @ b" ..
next
  assume "\<exists>b. s = p @ b"
  then show "startsWith s p" by (auto simp: startsWith_def)
qed

lemma includesStr_iff: "includesStr s sub = (\<exists>a b. s = a @ sub @ b)"
proof (induction s)
  case Nil
  then show ?case by auto
next
  case (Cons c cs)
  show ?case
  proof
    assume "includesStr (c # cs) sub"
    then consider "startsWith (c # cs) sub" | "includesStr cs sub" by auto
    then show "\<exists>a b. c # cs = a @ sub @ b"
    proof cases
      case 1
      then obtain b where "c # cs = sub @ b" unfolding startsWith_iff ..
      then have "c # cs = [] @ sub @ b" by simp
      then show ?thesis by blast
    next
      case 2
      with Cons.IH obtain a b where "cs = a @ sub @ b" by blast
      then have "c # cs = (c # a) @ sub @ b" by simp
      then show ?thesis by blast
    qed
  next
    assume "\<exists>a b. c # cs = a @ sub @ b"
    then obtain a b where ab: "c # cs = a @ sub @ b" by blast
    show "includesStr (c # cs) sub"
    proof (cases a)
      case Nil
      with ab have "startsWith (c # cs) sub" unfolding startsWith_iff by auto
      then show ?thesis by simp
    next
      case (Cons x xs)
      with ab have "cs = xs @ sub @ b" by simp
      with Cons.IH have "includesStr cs sub" by blast
      then show ?thesis by simp
    qed
  qed
qed

lemma isAssertionLine_iff:
  "isAssertionLine e =
     (\<exists>s. (e = Stdout s \<or> e = Stderr s)
        \<and> ((\<exists>a b. StdoutEvent.text_field s = a @ ''Error:'' @ b)
             \<or> (\<exists>a b. StdoutEvent.text_field s = a @ ''Expected'' @ b)))"
  by (cases e) (simp_all add: isAssertionLine_def includesStr_iff)

lemma find_append_first:
  "\<not> list_ex P pre \<Longrightarrow> P x \<Longrightarrow> find P (pre @ x # post) = Some x"
  by (induction pre) auto

lemma assertionError_first:
  assumes "ev = Stdout s \<or> ev = Stderr s" and "isAssertionLine ev"
    and "\<not> list_ex isAssertionLine pre"
  shows "assertionError (pre @ ev # post) = Some s"
  using assms find_append_first [of isAssertionLine pre ev post]
  by (auto simp: assertionError_def)

lemma pageErrors_first:
  assumes "BrowserEvent.method_field b = ''pageError''"
    and "\<forall>e\<in>set pre. \<forall>b'. e = Event b' \<longrightarrow> BrowserEvent.method_field b' \<noteq> ''pageError''"
  shows "pageErrors (pre @ Event b # post) = b # pageErrors post"
proof -
  have "pageErrors pre = []"
    using assms(2) unfolding pageErrors_def
    by (induction pre) (auto split: TraceEvent.splits)
  moreover have "pageErrors (pre @ Event b # post) = pageErrors pre @ b # pageErrors post"
    using assms(1) by (simp add: pageErrors_def)
  ultimately show ?thesis by simp
qed

lemma pageErrors_none:
  assumes "\<forall>e\<in>set bt. \<forall>b'. e = Event b' \<longrightarrow> BrowserEvent.method_field b' \<noteq> ''pageError''"
  shows "pageErrors bt = []"
  using assms unfolding pageErrors_def
  by (induction bt) (auto split: TraceEvent.splits)

lemma pageErrors_some:
  assumes "Event b \<in> set bt" and "BrowserEvent.method_field b = ''pageError''"
  shows "pageErrors bt \<noteq> []"
  using assms unfolding pageErrors_def by (force split: TraceEvent.splits)

lemma no_marker_line:
  assumes "\<forall>e\<in>set tt. \<forall>s. e = Stdout s \<or> e = Stderr s \<longrightarrow>
             (\<forall>a b. StdoutEvent.text_field s \<noteq> a @ ''Error:'' @ b)
             \<and> (\<forall>a b. StdoutEvent.text_field s \<noteq> a @ ''Expected'' @ b)"
  shows "\<not> list_ex isAssertionLine tt"
  using assms unfolding list_ex_iff isAssertionLine_iff by blast


lemma verdict_some_marker:
  assumes "\<exists>s. (Stdout s \<in> set testTrace \<or> Stderr s \<in> set testTrace)
        \<and> ((\<exists>a b. StdoutEvent.text_field s = a @ ''Error:'' @ b)
             \<or> (\<exists>a b. StdoutEvent.text_field s = a @ ''Expected'' @ b))"
  shows "TraceContext.status (buildContext traceDir testTrace browserTrace) = Failed"
proof -
  from assms have "list_ex isAssertionLine testTrace"
    unfolding list_ex_iff isAssertionLine_iff by blast
  from assertionError_Some [OF this] obtain s where "assertionError testTrace = Some s" by blast
  then show ?thesis by (simp add: buildContext_sel statusInfo_def)
qed

lemma verdict_first_marker:
  assumes "testTrace = pre @ ev # post" and "ev = Stdout s \<or> ev = Stderr s"
    and "(\<exists>a b. StdoutEvent.text_field s = a @ ''Error:'' @ b)
             \<or> (\<exists>a b. StdoutEvent.text_field s = a @ ''Expected'' @ b)"
    and "\<forall>e\<in>set pre. \<forall>s'. e = Stdout s' \<or> e = Stderr s' \<longrightarrow>
              (\<forall>a b. StdoutEvent.text_field s' \<noteq> a @ ''Error:'' @ b)
              \<and> (\<forall>a b. StdoutEvent.text_field s' \<noteq> a @ ''Expected'' @ b)"
  shows "TraceContext.status (buildContext traceDir testTrace browserTrace) = Failed
          \<and> TraceContext.errorMessage (buildContext traceDir testTrace browserTrace)
              = Some (StdoutEvent.text_field s)
          \<and> TraceContext.errorTime (buildContext traceDir testTrace browserTrace)
              = Some (StdoutEvent.timestamp s)"
proof -
  from assms(2,3) have ev: "isAssertionLine ev" unfolding isAssertionLine_iff by blast
  from assms(4) have "\<not> list_ex isAssertionLine pre" by (rule no_marker_line)
  from assertionError_first [OF assms(2) ev this, of post] assms(1)
  have "assertionError testTrace = Some s" by simp
  then show ?thesis by (simp add: buildContext_sel statusInfo_def)
qed

lemma verdict_first_page_error:
  assumes "\<forall>e\<in>set testTrace. \<forall>s'. e = Stdout s' \<or> e = Stderr s' \<longrightarrow>
              (\<forall>a b. StdoutEvent.text_field s' \<noteq> a @ ''Error:'' @ b)
              \<and> (\<forall>a b. StdoutEvent.text_field s' \<noteq> a @ ''Expected'' @ b)"
    and "browserTrace = bpre @ Event err # bpost"
    and "BrowserEvent.method_field err = ''pageError''"
    and "\<forall>e\<in>set bpre. \<forall>b'. e = Event b' \<longrightarrow> BrowserEvent.method_field b' \<noteq> ''pageError''"
  shows "TraceContext.status (buildContext traceDir testTrace browserTrace) = Failed
          \<and> TraceContext.errorMessage (buildContext traceDir testTrace browserTrace)
              = map_option ErrorInfo.message (BrowserEvent.error err)
          \<and> TraceContext.errorTime (buildContext traceDir testTrace browserTrace)
              = Some (BrowserEvent.time err)"
proof -
  from assms(1) have "\<not> list_ex isAssertionLine testTrace" by (rule no_marker_line)
  then have n: "assertionError testTrace = None" by (rule assertionError_None)
  from pageErrors_first [OF assms(3,4), of bpost] assms(2)
  have p: "pageErrors browserTrace = err # pageErrors bpost" by simp
  show ?thesis by (simp add: buildContext_sel statusInfo_def n p)
qed

lemma verdict_passed:
  assumes "\<forall>e\<in>set testTrace. \<forall>s'. e = Stdout s' \<or> e = Stderr s' \<longrightarrow>
              (\<forall>a b. StdoutEvent.text_field s' \<noteq> a @ ''Error:'' @ b)
              \<and> (\<forall>a b. StdoutEvent.text_field s' \<noteq> a @ ''Expected'' @ b)"
    and "\<forall>e\<in>set browserTrace. \<forall>b'. e = Event b' \<longrightarrow> BrowserEvent.method_field b' \<noteq> ''pageError''"
  shows "TraceContext.status (buildContext traceDir testTrace browserTrace) = Passed
          \<and> TraceContext.errorMessage (buildContext traceDir testTrace browserTrace) = None
          \<and> TraceContext.errorTime (buildContext traceDir testTrace browserTrace) = None"
proof -
  from assms(1) have "\<not> list_ex isAssertionLine testTrace" by (rule no_marker_line)
  then have n: "assertionError testTrace = None" by (rule assertionError_None)
  from assms(2) have p: "pageErrors browserTrace = []" by (rule pageErrors_none)
  show ?thesis by (simp add: buildContext_sel statusInfo_def n p)
qed

text \<open>
  Claim C1. The verdict follows the priority order. If the runner trace holds a stdout
  or stderr event whose text contains \<^verbatim>\<open>Error:\<close> or \<^verbatim>\<open>Expected\<close>, the status is failed, and
  the error message and time are the text and timestamp of the first such event.
  Otherwise, if the browser trace holds a browser event with the method \<^verbatim>\<open>pageError\<close>, the
  status is failed with the message and time of the first such event. Otherwise the
  status is passed and no error message or time is set. The conditions are stated on
  the events themselves: what counts as an assertion line and as a page error does not
  rest on the functions of the program.
\<close>

theorem verdict_priority:
  "((\<exists>s. (Stdout s \<in> set testTrace \<or> Stderr s \<in> set testTrace)
        \<and> ((\<exists>a b. StdoutEvent.text_field s = a @ ''Error:'' @ b)
             \<or> (\<exists>a b. StdoutEvent.text_field s = a @ ''Expected'' @ b)))
      \<longrightarrow> TraceContext.status (buildContext traceDir testTrace browserTrace) = Failed)
   \<and> (testTrace = pre @ ev # post \<and> (ev = Stdout s \<or> ev = Stderr s)
        \<and> ((\<exists>a b. StdoutEvent.text_field s = a @ ''Error:'' @ b)
             \<or> (\<exists>a b. StdoutEvent.text_field s = a @ ''Expected'' @ b))
        \<and> (\<forall>e\<in>set pre. \<forall>s'. e = Stdout s' \<or> e = Stderr s' \<longrightarrow>
              (\<forall>a b. StdoutEvent.text_field s' \<noteq> a @ ''Error:'' @ b)
              \<and> (\<forall>a b. StdoutEvent.text_field s' \<noteq> a @ ''Expected'' @ b))
      \<longrightarrow> TraceContext.status (buildContext traceDir testTrace browserTrace) = Failed
          \<and> TraceContext.errorMessage (buildContext traceDir testTrace browserTrace)
              = Some (StdoutEvent.text_field s)
          \<and> TraceContext.errorTime (buildContext traceDir testTrace browserTrace)
              = Some (StdoutEvent.timestamp s))
   \<and> ((\<forall>e\<in>set testTrace. \<forall>s'. e = Stdout s' \<or> e = Stderr s' \<longrightarrow>
              (\<forall>a b. StdoutEvent.text_field s' \<noteq> a @ ''Error:'' @ b)
              \<and> (\<forall>a b. StdoutEvent.text_field s' \<noteq> a @ ''Expected'' @ b))
        \<and> browserTrace = bpre @ Event err # bpost
        \<and> BrowserEvent.method_field err = ''pageError''
        \<and> (\<forall>e\<in>set bpre. \<forall>b'. e = Event b' \<longrightarrow> BrowserEvent.method_field b' \<noteq> ''pageError'')
      \<longrightarrow> TraceContext.status (buildContext traceDir testTrace browserTrace) = Failed
          \<and> TraceContext.errorMessage (buildContext traceDir testTrace browserTrace)
              = map_option ErrorInfo.message (BrowserEvent.error err)
          \<and> TraceContext.errorTime (buildContext traceDir testTrace browserTrace)
              = Some (BrowserEvent.time err))
   \<and> ((\<forall>e\<in>set testTrace. \<forall>s'. e = Stdout s' \<or> e = Stderr s' \<longrightarrow>
              (\<forall>a b. StdoutEvent.text_field s' \<noteq> a @ ''Error:'' @ b)
              \<and> (\<forall>a b. StdoutEvent.text_field s' \<noteq> a @ ''Expected'' @ b))
        \<and> (\<forall>e\<in>set browserTrace. \<forall>b'. e = Event b' \<longrightarrow> BrowserEvent.method_field b' \<noteq> ''pageError'')
      \<longrightarrow> TraceContext.status (buildContext traceDir testTrace browserTrace) = Passed
          \<and> TraceContext.errorMessage (buildContext traceDir testTrace browserTrace) = None
          \<and> TraceContext.errorTime (buildContext traceDir testTrace browserTrace) = None)"
proof (intro conjI)
  show "(\<exists>s. (Stdout s \<in> set testTrace \<or> Stderr s \<in> set testTrace)
        \<and> ((\<exists>a b. StdoutEvent.text_field s = a @ ''Error:'' @ b)
             \<or> (\<exists>a b. StdoutEvent.text_field s = a @ ''Expected'' @ b)))
      \<longrightarrow> TraceContext.status (buildContext traceDir testTrace browserTrace) = Failed"
    by (rule impI) (rule verdict_some_marker)
next
  show "testTrace = pre @ ev # post \<and> (ev = Stdout s \<or> ev = Stderr s)
        \<and> ((\<exists>a b. StdoutEvent.text_field s = a @ ''Error:'' @ b)
             \<or> (\<exists>a b. StdoutEvent.text_field s = a @ ''Expected'' @ b))
        \<and> (\<forall>e\<in>set pre. \<forall>s'. e = Stdout s' \<or> e = Stderr s' \<longrightarrow>
              (\<forall>a b. StdoutEvent.text_field s' \<noteq> a @ ''Error:'' @ b)
              \<and> (\<forall>a b. StdoutEvent.text_field s' \<noteq> a @ ''Expected'' @ b))
      \<longrightarrow> TraceContext.status (buildContext traceDir testTrace browserTrace) = Failed
          \<and> TraceContext.errorMessage (buildContext traceDir testTrace browserTrace)
              = Some (StdoutEvent.text_field s)
          \<and> TraceContext.errorTime (buildContext traceDir testTrace browserTrace)
              = Some (StdoutEvent.timestamp s)"
    apply (rule impI)
    apply (elim conjE)
    subgoal premises p using p by (rule verdict_first_marker)
    done
next
  show "(\<forall>e\<in>set testTrace. \<forall>s'. e = Stdout s' \<or> e = Stderr s' \<longrightarrow>
              (\<forall>a b. StdoutEvent.text_field s' \<noteq> a @ ''Error:'' @ b)
              \<and> (\<forall>a b. StdoutEvent.text_field s' \<noteq> a @ ''Expected'' @ b))
        \<and> browserTrace = bpre @ Event err # bpost
        \<and> BrowserEvent.method_field err = ''pageError''
        \<and> (\<forall>e\<in>set bpre. \<forall>b'. e = Event b' \<longrightarrow> BrowserEvent.method_field b' \<noteq> ''pageError'')
      \<longrightarrow> TraceContext.status (buildContext traceDir testTrace browserTrace) = Failed
          \<and> TraceContext.errorMessage (buildContext traceDir testTrace browserTrace)
              = map_option ErrorInfo.message (BrowserEvent.error err)
          \<and> TraceContext.errorTime (buildContext traceDir testTrace browserTrace)
              = Some (BrowserEvent.time err)"
    apply (rule impI)
    apply (elim conjE)
    subgoal premises p using p by (rule verdict_first_page_error)
    done
next
  show "(\<forall>e\<in>set testTrace. \<forall>s'. e = Stdout s' \<or> e = Stderr s' \<longrightarrow>
              (\<forall>a b. StdoutEvent.text_field s' \<noteq> a @ ''Error:'' @ b)
              \<and> (\<forall>a b. StdoutEvent.text_field s' \<noteq> a @ ''Expected'' @ b))
        \<and> (\<forall>e\<in>set browserTrace. \<forall>b'. e = Event b' \<longrightarrow> BrowserEvent.method_field b' \<noteq> ''pageError'')
      \<longrightarrow> TraceContext.status (buildContext traceDir testTrace browserTrace) = Passed
          \<and> TraceContext.errorMessage (buildContext traceDir testTrace browserTrace) = None
          \<and> TraceContext.errorTime (buildContext traceDir testTrace browserTrace) = None"
    apply (rule impI)
    apply (elim conjE)
    subgoal premises p using p by (rule verdict_passed)
    done
qed


lemma occurs_eval: "(\<exists>a b. t = a @ sub @ b) = includesStr t sub"
  and not_occurs_eval: "(\<forall>a b. t \<noteq> a @ sub @ b) = (\<not> includesStr t sub)"
  by (simp_all add: includesStr_iff)

theorem verdict_priority_witness:
  "expectedOutput
     = [Stdout \<lparr> StdoutEvent.timestamp = 5, StdoutEvent.text_field = ''Running 1 test'' \<rparr>]
       @ Stdout \<lparr> StdoutEvent.timestamp = 7, StdoutEvent.text_field = ''Expected: visible'' \<rparr>
       # [Stderr \<lparr> StdoutEvent.timestamp = 9,
                   StdoutEvent.text_field = ''Error: expect(locator).toBeVisible()'' \<rparr>]
   \<and> (\<exists>a b. ''Expected: visible'' = a @ ''Expected'' @ b)
   \<and> (\<forall>a b. ''Running 1 test'' \<noteq> a @ ''Error:'' @ b)
   \<and> (\<forall>a b. ''Running 1 test'' \<noteq> a @ ''Expected'' @ b)
   \<and> TraceContext.status (buildContext ''t'' expectedOutput pageErrorTrace) = Failed
   \<and> TraceContext.errorMessage (buildContext ''t'' expectedOutput pageErrorTrace)
       = Some ''Expected: visible''
   \<and> TraceContext.errorTime (buildContext ''t'' expectedOutput pageErrorTrace) = Some 7
   \<and> TraceContext.status (buildContext ''t'' failingOutput pageErrorTrace) = Failed
   \<and> TraceContext.errorMessage (buildContext ''t'' failingOutput pageErrorTrace)
       = Some ''Error: expect(locator).toBeVisible()''
   \<and> TraceContext.errorTime (buildContext ''t'' failingOutput pageErrorTrace) = Some 9
   \<and> TraceContext.status (buildContext ''t'' quietOutput (closeEvent # pageErrorTrace)) = Failed
   \<and> TraceContext.errorMessage (buildContext ''t'' quietOutput (closeEvent # pageErrorTrace))
       = Some ''boom''
   \<and> TraceContext.errorTime (buildContext ''t'' quietOutput (closeEvent # pageErrorTrace)) = Some 3
   \<and> TraceContext.status (buildContext ''t'' quietOutput [closeEvent]) = Passed
   \<and> TraceContext.errorMessage (buildContext ''t'' quietOutput [closeEvent]) = None
   \<and> TraceContext.errorTime (buildContext ''t'' quietOutput [closeEvent]) = None"
proof -
  let ?run = "\<lparr> StdoutEvent.timestamp = 5, StdoutEvent.text_field = ''Running 1 test'' \<rparr>"
  let ?exp = "\<lparr> StdoutEvent.timestamp = 7, StdoutEvent.text_field = ''Expected: visible'' \<rparr>"
  let ?err = "\<lparr> StdoutEvent.timestamp = 9,
                StdoutEvent.text_field = ''Error: expect(locator).toBeVisible()'' \<rparr>"
  let ?boom = "\<lparr> BrowserEvent.time = 3, method_field = ''pageError'',
              BrowserEvent.error = Some \<lparr> ErrorInfo.message = ''boom'', stack = None \<rparr> \<rparr>"
  let ?second = "\<lparr> BrowserEvent.time = 4, method_field = ''pageError'',
              BrowserEvent.error = Some \<lparr> ErrorInfo.message = ''second'', stack = None \<rparr> \<rparr>"
  have m: "\<exists>a b. ''Expected: visible'' = a @ ''Expected'' @ b"
    "\<exists>a b. ''Error: expect(locator).toBeVisible()'' = a @ ''Error:'' @ b"
    unfolding occurs_eval by (simp_all add: startsWith_def)
  have q: "\<forall>a b. ''Running 1 test'' \<noteq> a @ ''Error:'' @ b"
    "\<forall>a b. ''Running 1 test'' \<noteq> a @ ''Expected'' @ b"
    unfolding not_occurs_eval by (simp_all add: startsWith_def)
  have quiet: "\<forall>e\<in>set [Stdout ?run]. \<forall>s'. e = Stdout s' \<or> e = Stderr s' \<longrightarrow>
              (\<forall>a b. StdoutEvent.text_field s' \<noteq> a @ ''Error:'' @ b)
              \<and> (\<forall>a b. StdoutEvent.text_field s' \<noteq> a @ ''Expected'' @ b)"
    using q by auto
  then have quietAll: "\<forall>e\<in>set quietOutput. \<forall>s'. e = Stdout s' \<or> e = Stderr s' \<longrightarrow>
              (\<forall>a b. StdoutEvent.text_field s' \<noteq> a @ ''Error:'' @ b)
              \<and> (\<forall>a b. StdoutEvent.text_field s' \<noteq> a @ ''Expected'' @ b)"
    unfolding quietOutput_def .
  have m1: "\<exists>a b. StdoutEvent.text_field ?exp = a @ ''Expected'' @ b"
    and m2: "\<exists>a b. StdoutEvent.text_field ?err = a @ ''Error:'' @ b"
    using m by simp_all
  have e1: "expectedOutput = [Stdout ?run] @ Stdout ?exp # [Stderr ?err]"
    by (simp add: expectedOutput_def)
  have e2: "failingOutput = [Stdout ?run] @ Stderr ?err
              # [Stdout \<lparr> StdoutEvent.timestamp = 12, StdoutEvent.text_field = ''Expected: visible'' \<rparr>]"
    by (simp add: failingOutput_def)
  have e3: "closeEvent # pageErrorTrace = [closeEvent] @ Event ?boom # [Event ?second]"
    by (simp add: pageErrorTrace_def)
  have meth: "BrowserEvent.method_field ?boom = ''pageError''" by simp
  have c: "\<forall>e\<in>set [closeEvent]. \<forall>b'. e = Event b' \<longrightarrow> BrowserEvent.method_field b' \<noteq> ''pageError''"
    by (simp add: closeEvent_def)
  note r1 = verdict_priority
    [where testTrace = expectedOutput and pre = "[Stdout ?run]" and ev = "Stdout ?exp"
       and s = ?exp and post = "[Stderr ?err]" and traceDir = "''t''"
       and browserTrace = pageErrorTrace,
     THEN conjunct2, THEN conjunct1, THEN mp,
     OF conjI [OF e1 conjI [OF disjI1 [OF refl] conjI [OF disjI2 [OF m1] quiet]]]]
  note r2 = verdict_priority
    [where testTrace = failingOutput and pre = "[Stdout ?run]" and ev = "Stderr ?err"
       and s = ?err and traceDir = "''t''" and browserTrace = pageErrorTrace,
     THEN conjunct2, THEN conjunct1, THEN mp,
     OF conjI [OF e2 conjI [OF disjI2 [OF refl] conjI [OF disjI1 [OF m2] quiet]]]]
  note r3 = verdict_priority
    [where testTrace = quietOutput and traceDir = "''t''"
       and browserTrace = "closeEvent # pageErrorTrace" and bpre = "[closeEvent]"
       and err = ?boom and bpost = "[Event ?second]",
     THEN conjunct2, THEN conjunct2, THEN conjunct1, THEN mp,
     OF conjI [OF quietAll conjI [OF e3 conjI [OF meth c]]]]
  note r4 = verdict_priority
    [where testTrace = quietOutput and traceDir = "''t''" and browserTrace = "[closeEvent]",
     THEN conjunct2, THEN conjunct2, THEN conjunct2, THEN mp,
     OF conjI [OF quietAll c]]
  from e1 m(1) q r1 r2 r3 r4 show ?thesis by simp
qed


lemma sorted_pick:
  assumes "sorted (List.map_filter f xs)"
    and "\<And>x y. y \<in> set (g x) \<Longrightarrow> f x = Some (k y)"
    and "\<And>x. length (g x) \<le> 1"
  shows "sorted (map k (concat (map g xs)))"
  using assms(1)
proof (induction xs)
  case Nil
  then show ?case by simp
next
  case (Cons x xs)
  have sub: "set (map k (concat (map g xs))) \<subseteq> set (List.map_filter f xs)"
    using assms(2) by (force simp: List.map_filter_def)
  show ?case
  proof (cases "g x")
    case Nil
    with Cons show ?thesis by (cases "f x") (simp_all add: List.map_filter_simps)
  next
    case (Cons y ys)
    with assms(3) [of x] have ys: "ys = []" by simp
    from Cons have fx: "f x = Some (k y)" using assms(2) [of y x] by simp
    with Cons.prems have s: "sorted (k y # List.map_filter f xs)"
      by (simp add: List.map_filter_simps)
    then have "sorted (List.map_filter f xs)" by simp
    then have ih: "sorted (map k (concat (map g xs)))" by (rule Cons.IH)
    from s sub have "\<forall>z\<in>set (map k (concat (map g xs))). k y \<le> z" by auto
    with ih Cons ys show ?thesis by simp
  qed
qed

lemma startTime_mergeAction [simp]: "BeforeEvent.startTime (mergeAction m b) = BeforeEvent.startTime b"
  by (simp add: mergeAction_def BeforeEvent.extend_def Let_def)

lemma truncate_mergeAction [simp]: "BeforeEvent.truncate (mergeAction m b) = b"
  by (simp add: mergeAction_def BeforeEvent.extend_def BeforeEvent.truncate_def Let_def)

lemma frames_order:
  "map ScreencastFrame [s. ScreencastFrame s \<leftarrow> bt]
     = filter (\<lambda>e. case e of ScreencastFrame s \<Rightarrow> True | _ \<Rightarrow> False) bt"
  by (induction bt) (auto split: TraceEvent.splits)

lemma console_order:
  "map Console [c. Console c \<leftarrow> bt]
     = filter (\<lambda>e. case e of Console c \<Rightarrow> True | _ \<Rightarrow> False) bt"
  by (induction bt) (auto split: TraceEvent.splits)

lemma errors_order:
  "map Event (pageErrors bt)
     = filter (\<lambda>e. case e of Event b \<Rightarrow> BrowserEvent.method_field b = ''pageError'' | _ \<Rightarrow> False) bt"
  unfolding pageErrors_def by (induction bt) (auto split: TraceEvent.splits)

lemma actions_order:
  "map (\<lambda>a. Before (BeforeEvent.truncate a))
       (map (mergeAction m) (filter (\<lambda>e. isKeyAction (BeforeEvent.apiName e)) (beforeEvents bt)))
     = filter (\<lambda>e. case e of Before b \<Rightarrow> isKeyAction (BeforeEvent.apiName b) | _ \<Rightarrow> False) bt"
  unfolding beforeEvents_def by (induction bt) (auto split: TraceEvent.splits)

lemma frames_times:
  "map ScreencastFrameEvent.timestamp [s. ScreencastFrame s \<leftarrow> bt]
     = List.map_filter (\<lambda>e. case e of ScreencastFrame s \<Rightarrow> Some (ScreencastFrameEvent.timestamp s)
                              | _ \<Rightarrow> None) bt"
  by (induction bt) (auto simp: List.map_filter_simps split: TraceEvent.splits)

lemma console_times:
  "map ConsoleEvent.time [c. Console c \<leftarrow> bt]
     = List.map_filter (\<lambda>e. case e of Console c \<Rightarrow> Some (ConsoleEvent.time c) | _ \<Rightarrow> None) bt"
  by (induction bt) (auto simp: List.map_filter_simps split: TraceEvent.splits)

lemma errors_times:
  "map BrowserEvent.time (pageErrors bt)
     = List.map_filter (\<lambda>e. case e of
          Event b \<Rightarrow> if BrowserEvent.method_field b = ''pageError''
                     then Some (BrowserEvent.time b) else None
        | _ \<Rightarrow> None) bt"
  unfolding pageErrors_def
  by (induction bt) (auto simp: List.map_filter_simps split: TraceEvent.splits)

lemma actions_times:
  "map BeforeEvent.startTime
       (map (mergeAction m) (filter (\<lambda>e. isKeyAction (BeforeEvent.apiName e)) (beforeEvents bt)))
     = List.map_filter (\<lambda>e. case e of
          Before b \<Rightarrow> if isKeyAction (BeforeEvent.apiName b)
                      then Some (BeforeEvent.startTime b) else None
        | _ \<Rightarrow> None) bt"
  unfolding beforeEvents_def
  by (induction bt) (auto simp: List.map_filter_simps split: TraceEvent.splits)

lemma traceFiles_props:
  "sorted (traceFiles fs)"
  "set (traceFiles fs) = {f \<in> fst ` set (files fs). isShardName f}"
  by (auto simp: traceFiles_def)

lemma sorted_collections:
  assumes "sorted (List.map_filter eventTime browserTrace)"
  shows "sorted (map ScreencastFrameEvent.timestamp (TraceContext.screenshots (buildContext traceDir testTrace browserTrace)))
       \<and> sorted (map ConsoleEvent.time (TraceContext.consoleMessages (buildContext traceDir testTrace browserTrace)))
       \<and> sorted (map BrowserEvent.time (TraceContext.errors (buildContext traceDir testTrace browserTrace)))
       \<and> sorted (map BeforeEvent.startTime (TraceContext.actions (buildContext traceDir testTrace browserTrace)))"
proof (intro conjI)
  show "sorted (map ScreencastFrameEvent.timestamp (TraceContext.screenshots (buildContext traceDir testTrace browserTrace)))"
    unfolding buildContext_sel
    by (rule sorted_pick [OF assms]) (auto split: TraceEvent.splits)
  show "sorted (map ConsoleEvent.time (TraceContext.consoleMessages (buildContext traceDir testTrace browserTrace)))"
    unfolding buildContext_sel
    by (rule sorted_pick [OF assms]) (auto split: TraceEvent.splits)
  show "sorted (map BrowserEvent.time (TraceContext.errors (buildContext traceDir testTrace browserTrace)))"
    unfolding buildContext_sel pageErrors_def
    by (rule sorted_pick [OF assms]) (auto split: TraceEvent.splits if_splits)
  have "sorted (map BeforeEvent.startTime (beforeEvents browserTrace))"
    unfolding beforeEvents_def
    by (rule sorted_pick [OF assms]) (auto split: TraceEvent.splits)
  then have "sorted (map BeforeEvent.startTime
      (filter (\<lambda>e. isKeyAction (BeforeEvent.apiName e)) (beforeEvents browserTrace)))"
    by (rule sorted_filter)
  then show "sorted (map BeforeEvent.startTime (TraceContext.actions (buildContext traceDir testTrace browserTrace)))"
    by (simp add: buildContext_sel comp_def)
qed

text \<open>
  Claim C2, as amended. The context builder does not sort. Each of the four timestamped
  collections is the list of the events of its kind in the concatenated browser trace
  (the frames; the console messages; the browser events with the method
  \<^verbatim>\<open>pageError\<close>; the action starts that are key actions), in the order in which they stand
  there, and the browser trace is the concatenation of the shards in ascending order of
  their file names. So a collection is sorted ascending by its timestamp field exactly
  when the events of its kind stand in ascending order of that field in the
  concatenation, and all four are sorted when all timestamped events of the
  concatenation are in ascending order of time.
\<close>

theorem collections_keep_file_order:
  "map ScreencastFrame (TraceContext.screenshots (buildContext traceDir testTrace browserTrace))
     = filter (\<lambda>e. case e of ScreencastFrame s \<Rightarrow> True | _ \<Rightarrow> False) browserTrace
   \<and> map Console (TraceContext.consoleMessages (buildContext traceDir testTrace browserTrace))
     = filter (\<lambda>e. case e of Console c \<Rightarrow> True | _ \<Rightarrow> False) browserTrace
   \<and> map Event (TraceContext.errors (buildContext traceDir testTrace browserTrace))
     = filter (\<lambda>e. case e of Event b \<Rightarrow> BrowserEvent.method_field b = ''pageError'' | _ \<Rightarrow> False)
         browserTrace
   \<and> map (\<lambda>a. Before (BeforeEvent.truncate a))
         (TraceContext.actions (buildContext traceDir testTrace browserTrace))
     = filter (\<lambda>e. case e of Before b \<Rightarrow> isKeyAction (BeforeEvent.apiName b) | _ \<Rightarrow> False)
         browserTrace
   \<and> sorted (map ScreencastFrameEvent.timestamp
         (TraceContext.screenshots (buildContext traceDir testTrace browserTrace)))
     = sorted (List.map_filter
         (\<lambda>e. case e of ScreencastFrame s \<Rightarrow> Some (ScreencastFrameEvent.timestamp s) | _ \<Rightarrow> None)
         browserTrace)
   \<and> sorted (map ConsoleEvent.time
         (TraceContext.consoleMessages (buildContext traceDir testTrace browserTrace)))
     = sorted (List.map_filter
         (\<lambda>e. case e of Console c \<Rightarrow> Some (ConsoleEvent.time c) | _ \<Rightarrow> None) browserTrace)
   \<and> sorted (map BrowserEvent.time
         (TraceContext.errors (buildContext traceDir testTrace browserTrace)))
     = sorted (List.map_filter
         (\<lambda>e. case e of
            Event b \<Rightarrow> if BrowserEvent.method_field b = ''pageError''
                       then Some (BrowserEvent.time b) else None
          | _ \<Rightarrow> None) browserTrace)
   \<and> sorted (map BeforeEvent.startTime
         (TraceContext.actions (buildContext traceDir testTrace browserTrace)))
     = sorted (List.map_filter
         (\<lambda>e. case e of
            Before b \<Rightarrow> if isKeyAction (BeforeEvent.apiName b)
                        then Some (BeforeEvent.startTime b) else None
          | _ \<Rightarrow> None) browserTrace)
   \<and> (sorted (List.map_filter eventTime browserTrace) \<longrightarrow>
        sorted (map ScreencastFrameEvent.timestamp
          (TraceContext.screenshots (buildContext traceDir testTrace browserTrace)))
        \<and> sorted (map ConsoleEvent.time
          (TraceContext.consoleMessages (buildContext traceDir testTrace browserTrace)))
        \<and> sorted (map BrowserEvent.time
          (TraceContext.errors (buildContext traceDir testTrace browserTrace)))
        \<and> sorted (map BeforeEvent.startTime
          (TraceContext.actions (buildContext traceDir testTrace browserTrace))))
   \<and> parseTrace JSON_parse fs traceDir
       = buildContext traceDir (readTestTrace JSON_parse fs)
           (concat (map (\<lambda>f. fst (parseJsonlFile JSON_parse (map_of (files fs) f)))
              (traceFiles fs)))
   \<and> sorted (traceFiles fs)
   \<and> set (traceFiles fs) = {f \<in> fst ` set (files fs). isShardName f}"
proof (intro conjI)
  show "map ScreencastFrame (TraceContext.screenshots (buildContext traceDir testTrace browserTrace))
     = filter (\<lambda>e. case e of ScreencastFrame s \<Rightarrow> True | _ \<Rightarrow> False) browserTrace"
    unfolding buildContext_sel by (rule frames_order)
  show "map Console (TraceContext.consoleMessages (buildContext traceDir testTrace browserTrace))
     = filter (\<lambda>e. case e of Console c \<Rightarrow> True | _ \<Rightarrow> False) browserTrace"
    unfolding buildContext_sel by (rule console_order)
  show "map Event (TraceContext.errors (buildContext traceDir testTrace browserTrace))
     = filter (\<lambda>e. case e of Event b \<Rightarrow> BrowserEvent.method_field b = ''pageError'' | _ \<Rightarrow> False)
         browserTrace"
    unfolding buildContext_sel by (rule errors_order)
  show "map (\<lambda>a. Before (BeforeEvent.truncate a))
         (TraceContext.actions (buildContext traceDir testTrace browserTrace))
     = filter (\<lambda>e. case e of Before b \<Rightarrow> isKeyAction (BeforeEvent.apiName b) | _ \<Rightarrow> False)
         browserTrace"
    unfolding buildContext_sel by (rule actions_order)
  show "sorted (map ScreencastFrameEvent.timestamp
         (TraceContext.screenshots (buildContext traceDir testTrace browserTrace)))
     = sorted (List.map_filter
         (\<lambda>e. case e of ScreencastFrame s \<Rightarrow> Some (ScreencastFrameEvent.timestamp s) | _ \<Rightarrow> None)
         browserTrace)"
    unfolding buildContext_sel frames_times ..
  show "sorted (map ConsoleEvent.time
         (TraceContext.consoleMessages (buildContext traceDir testTrace browserTrace)))
     = sorted (List.map_filter
         (\<lambda>e. case e of Console c \<Rightarrow> Some (ConsoleEvent.time c) | _ \<Rightarrow> None) browserTrace)"
    unfolding buildContext_sel console_times ..
  show "sorted (map BrowserEvent.time
         (TraceContext.errors (buildContext traceDir testTrace browserTrace)))
     = sorted (List.map_filter
         (\<lambda>e. case e of
            Event b \<Rightarrow> if BrowserEvent.method_field b = ''pageError''
                       then Some (BrowserEvent.time b) else None
          | _ \<Rightarrow> None) browserTrace)"
    unfolding buildContext_sel errors_times ..
  show "sorted (map BeforeEvent.startTime
         (TraceContext.actions (buildContext traceDir testTrace browserTrace)))
     = sorted (List.map_filter
         (\<lambda>e. case e of
            Before b \<Rightarrow> if isKeyAction (BeforeEvent.apiName b)
                        then Some (BeforeEvent.startTime b) else None
          | _ \<Rightarrow> None) browserTrace)"
    unfolding buildContext_sel actions_times ..
  show "sorted (List.map_filter eventTime browserTrace) \<longrightarrow>
        sorted (map ScreencastFrameEvent.timestamp
          (TraceContext.screenshots (buildContext traceDir testTrace browserTrace)))
        \<and> sorted (map ConsoleEvent.time
          (TraceContext.consoleMessages (buildContext traceDir testTrace browserTrace)))
        \<and> sorted (map BrowserEvent.time
          (TraceContext.errors (buildContext traceDir testTrace browserTrace)))
        \<and> sorted (map BeforeEvent.startTime
          (TraceContext.actions (buildContext traceDir testTrace browserTrace)))"
    by (rule impI) (rule sorted_collections)
  show "parseTrace JSON_parse fs traceDir
       = buildContext traceDir (readTestTrace JSON_parse fs)
           (concat (map (\<lambda>f. fst (parseJsonlFile JSON_parse (map_of (files fs) f)))
              (traceFiles fs)))"
    by (simp add: parseTrace_def readBrowserTrace_def)
  show "sorted (traceFiles fs)" by (rule traceFiles_props)
  show "set (traceFiles fs) = {f \<in> fst ` set (files fs). isShardName f}"
    by (rule traceFiles_props)
qed

theorem collections_keep_file_order_witness:
  "sorted (List.map_filter eventTime chronologicalTrace)
   \<and> map ScreencastFrameEvent.timestamp
         (TraceContext.screenshots (buildContext ''t'' [] chronologicalTrace)) = [100, 200]
   \<and> sorted (map ScreencastFrameEvent.timestamp
         (TraceContext.screenshots (buildContext ''t'' [] chronologicalTrace)))
   \<and> sorted (map ConsoleEvent.time
         (TraceContext.consoleMessages (buildContext ''t'' [] chronologicalTrace)))
   \<and> \<not> sorted (List.map_filter eventTime strayTrace)
   \<and> map ScreencastFrame (TraceContext.screenshots (buildContext ''t'' [] strayTrace))
       = [ScreencastFrame \<lparr> sha1 = ''a.jpeg'', ScreencastFrameEvent.timestamp = 100 \<rparr>,
          ScreencastFrame \<lparr> sha1 = ''b.jpeg'', ScreencastFrameEvent.timestamp = 200 \<rparr>]
   \<and> sorted (map ScreencastFrameEvent.timestamp
         (TraceContext.screenshots (buildContext ''t'' [] strayTrace)))"
proof -
  have h: "sorted (List.map_filter eventTime chronologicalTrace)"
    "\<not> sorted (List.map_filter eventTime strayTrace)"
    by (simp_all add: chronologicalTrace_def strayTrace_def List.map_filter_simps)
  have ev: "map ScreencastFrameEvent.timestamp
         (TraceContext.screenshots (buildContext ''t'' [] chronologicalTrace)) = [100, 200]"
    by (simp add: buildContext_sel chronologicalTrace_def)
  have f: "filter (\<lambda>e. case e of ScreencastFrame s \<Rightarrow> True | _ \<Rightarrow> False) strayTrace
       = [ScreencastFrame \<lparr> sha1 = ''a.jpeg'', ScreencastFrameEvent.timestamp = 100 \<rparr>,
          ScreencastFrame \<lparr> sha1 = ''b.jpeg'', ScreencastFrameEvent.timestamp = 200 \<rparr>]"
    "sorted (List.map_filter
         (\<lambda>e. case e of ScreencastFrame s \<Rightarrow> Some (ScreencastFrameEvent.timestamp s) | _ \<Rightarrow> None)
         strayTrace)"
    by (simp_all add: strayTrace_def List.map_filter_simps)
  note c = collections_keep_file_order [of "''t''" "[]" chronologicalTrace sampleJson noFiles]
  note s = collections_keep_file_order [of "''t''" "[]" strayTrace sampleJson noFiles]
  from c h(1) have c1: "sorted (map ScreencastFrameEvent.timestamp
         (TraceContext.screenshots (buildContext ''t'' [] chronologicalTrace)))"
    "sorted (map ConsoleEvent.time
         (TraceContext.consoleMessages (buildContext ''t'' [] chronologicalTrace)))"
    by blast+
  from s f have s1: "map ScreencastFrame (TraceContext.screenshots (buildContext ''t'' [] strayTrace))
       = [ScreencastFrame \<lparr> sha1 = ''a.jpeg'', ScreencastFrameEvent.timestamp = 100 \<rparr>,
          ScreencastFrame \<lparr> sha1 = ''b.jpeg'', ScreencastFrameEvent.timestamp = 200 \<rparr>]"
    "sorted (map ScreencastFrameEvent.timestamp
         (TraceContext.screenshots (buildContext ''t'' [] strayTrace)))"
    by (simp_all only:)
  from h ev c1 s1 show ?thesis by blast
qed


text \<open>
  The claim as stated fails: with two shard files, of which the one that sorts first
  holds the later frame, the screenshots of the context are not in ascending order.
\<close>

theorem collections_not_sorted_counterexample:
  "traceFiles twoShards = [''0-trace.trace'', ''1-trace.trace'']
   \<and> map ScreencastFrameEvent.timestamp
         (TraceContext.screenshots (parseTrace sampleJson twoShards ''/results/run/unzipped''))
       = [200, 100]
   \<and> \<not> sorted (map ScreencastFrameEvent.timestamp
         (TraceContext.screenshots (parseTrace sampleJson twoShards ''/results/run/unzipped'')))"
proof -
  have t: "traceFiles twoShards = [''0-trace.trace'', ''1-trace.trace'']"
    by code_simp
  have ev: "map ScreencastFrameEvent.timestamp
         (TraceContext.screenshots (parseTrace sampleJson twoShards ''/results/run/unzipped''))
       = [200, 100]"
    by code_simp
  show ?thesis unfolding ev using t by simp
qed

text \<open>
  Claim C4, as amended. The actions of the context are exactly the action starts whose
  API name is a key action, in their order, each once: no such action start is
  discarded. A key action start without an action end of the same call identifier is
  kept with end time and error absent.
\<close>

theorem key_action_starts_retained:
  "map BeforeEvent.truncate (TraceContext.actions (buildContext traceDir testTrace browserTrace))
     = filter (\<lambda>b. isKeyAction (BeforeEvent.apiName b)) (beforeEvents browserTrace)
   \<and> (Before b \<in> set browserTrace \<and> isKeyAction (BeforeEvent.apiName b) \<longrightarrow>
        (\<exists>act \<in> set (TraceContext.actions (buildContext traceDir testTrace browserTrace)).
           BeforeEvent.truncate act = b
           \<and> ((\<forall>a. After a \<in> set browserTrace \<longrightarrow> AfterEvent.callId a \<noteq> BeforeEvent.callId b)
                \<longrightarrow> Action.endTime act = None \<and> Action.error act = None)))"
proof (intro conjI impI)
  show "map BeforeEvent.truncate (TraceContext.actions (buildContext traceDir testTrace browserTrace))
     = filter (\<lambda>b. isKeyAction (BeforeEvent.apiName b)) (beforeEvents browserTrace)"
    by (simp add: buildContext_sel comp_def)
next
  assume a: "Before b \<in> set browserTrace \<and> isKeyAction (BeforeEvent.apiName b)"
  let ?m = "afterMap (afterEvents browserTrace)"
  from a have "b \<in> set (beforeEvents browserTrace)"
    by (force simp: beforeEvents_def)
  with a have mem: "mergeAction ?m b \<in> set (TraceContext.actions (buildContext traceDir testTrace browserTrace))"
    by (simp add: buildContext_sel)
  have none: "?m (BeforeEvent.callId b) = None"
    if "\<forall>a. After a \<in> set browserTrace \<longrightarrow> AfterEvent.callId a \<noteq> BeforeEvent.callId b"
    unfolding afterMap_def map_of_eq_None_iff
    using that by (force simp: afterEvents_def split: TraceEvent.splits)
  have "BeforeEvent.truncate (mergeAction ?m b) = b
           \<and> ((\<forall>a. After a \<in> set browserTrace \<longrightarrow> AfterEvent.callId a \<noteq> BeforeEvent.callId b)
                \<longrightarrow> Action.endTime (mergeAction ?m b) = None \<and> Action.error (mergeAction ?m b) = None)"
    using none by (auto simp: mergeAction_def BeforeEvent.extend_def BeforeEvent.truncate_def Let_def)
  with mem show "\<exists>act \<in> set (TraceContext.actions (buildContext traceDir testTrace browserTrace)).
           BeforeEvent.truncate act = b
           \<and> ((\<forall>a. After a \<in> set browserTrace \<longrightarrow> AfterEvent.callId a \<noteq> BeforeEvent.callId b)
                \<longrightarrow> Action.endTime act = None \<and> Action.error act = None)"
    by blast
qed

theorem key_action_starts_retained_witness:
  "Before hangingClick \<in> set [Before hangingWait, After otherEnd, Before hangingClick]
   \<and> isKeyAction (BeforeEvent.apiName hangingClick)
   \<and> AfterEvent.callId otherEnd \<noteq> BeforeEvent.callId hangingClick
   \<and> TraceContext.actions
         (buildContext ''t'' [] [Before hangingWait, After otherEnd, Before hangingClick])
       = [BeforeEvent.extend hangingClick \<lparr> Action.endTime = None, Action.error = None \<rparr>]"
proof -
  have k: "isKeyAction (BeforeEvent.apiName hangingClick)"
    "\<not> isKeyAction (BeforeEvent.apiName hangingWait)"
    by (simp_all add: hangingClick_def hangingWait_def isKeyAction_def keyActions_def startsWith_def)
  have ev: "TraceContext.actions
         (buildContext ''t'' [] [Before hangingWait, After otherEnd, Before hangingClick])
       = [BeforeEvent.extend hangingClick \<lparr> Action.endTime = None, Action.error = None \<rparr>]"
    using k by (simp add: buildContext_sel beforeEvents_def afterEvents_def afterMap_def
        mergeAction_def otherEnd_def hangingClick_def)
  from key_action_starts_retained
         [of "''t''" "[]" "[Before hangingWait, After otherEnd, Before hangingClick]" hangingClick]
       k ev
  show ?thesis by (simp add: otherEnd_def hangingClick_def)
qed

text \<open>
  The claim as stated fails: an action start that is no key action is dropped, also when
  it has no action end.
\<close>

theorem action_start_discarded_counterexample:
  "set (afterEvents [Before hangingWait]) = {}
   \<and> TraceContext.actions (buildContext ''t'' [] [Before hangingWait]) = []"
  by (simp add: buildContext_sel beforeEvents_def afterEvents_def hangingWait_def isKeyAction_def
      keyActions_def startsWith_def)

lemma traceStartTime_eq:
  "traceStartTime bt = (case contextOptions bt of None \<Rightarrow> 0 | Some c \<Rightarrow> monotonicTime c)"
  by (simp add: traceStartTime_def orNum_def split: option.splits)

text \<open>
  Claim C8, as amended. The start is the monotonic time of the first context-options
  event, or zero when there is none. The duration of an empty trace is zero. When the
  last event is an action start, an action end or a frame (an event with a start time,
  an end time or a timestamp) and that time \<open>t\<close> is not zero, the duration is \<open>t\<close> minus
  the start; it is non-negative exactly when \<open>t\<close> is not before the start.
\<close>

theorem duration_of_last_event:
  "traceStartTime browserTrace = (case contextOptions browserTrace of None \<Rightarrow> 0 | Some c \<Rightarrow> monotonicTime c)
   \<and> TraceContext.duration (buildContext traceDir testTrace []) = Some 0
   \<and> (browserTrace \<noteq> [] \<and> t \<noteq> 0
        \<and> (startTimeField (last browserTrace) = Some t \<or> endTimeField (last browserTrace) = Some t
             \<or> timestampField (last browserTrace) = Some t)
      \<longrightarrow> TraceContext.duration (buildContext traceDir testTrace browserTrace) = Some (t - traceStartTime browserTrace)
          \<and> ((0 \<le> the (TraceContext.duration (buildContext traceDir testTrace browserTrace))) = (traceStartTime browserTrace \<le> t)))"
proof (intro conjI impI)
  show "traceStartTime browserTrace = (case contextOptions browserTrace of None \<Rightarrow> 0 | Some c \<Rightarrow> monotonicTime c)"
    by (rule traceStartTime_eq)
  show "TraceContext.duration (buildContext traceDir testTrace []) = Some 0"
    by (simp add: buildContext_sel traceEndTime_def traceStartTime_def lastEvent_def orNum_def contextOptions_def)
next
  assume a: "browserTrace \<noteq> [] \<and> t \<noteq> 0
        \<and> (startTimeField (last browserTrace) = Some t \<or> endTimeField (last browserTrace) = Some t
             \<or> timestampField (last browserTrace) = Some t)"
  then have "traceEndTime browserTrace = t"
    by (cases "last browserTrace") (auto simp: traceEndTime_def lastEvent_def orNum_def)
  then show d: "TraceContext.duration (buildContext traceDir testTrace browserTrace) = Some (t - traceStartTime browserTrace)"
    by (simp add: buildContext_sel)
  show "(0 \<le> the (TraceContext.duration (buildContext traceDir testTrace browserTrace))) = (traceStartTime browserTrace \<le> t)"
    by (simp add: d)
qed

theorem duration_of_last_event_witness:
  "[startsAt100, Before hangingClick, After otherEnd] \<noteq> []
   \<and> endTimeField (last [startsAt100, Before hangingClick, After otherEnd]) = Some 15
   \<and> traceStartTime [startsAt100, Before hangingClick, After otherEnd] = 100
   \<and> TraceContext.duration
         (buildContext ''t'' [] [startsAt100, Before hangingClick, After otherEnd]) = Some (- 85)
   \<and> endTimeField (last [After otherEnd]) = Some 15
   \<and> traceStartTime [After otherEnd] = 0
   \<and> TraceContext.duration (buildContext ''t'' [] [After otherEnd]) = Some 15"
proof -
  have l: "endTimeField (last [startsAt100, Before hangingClick, After otherEnd]) = Some 15"
    "endTimeField (last [After otherEnd]) = Some 15"
    by (simp_all add: otherEnd_def)
  have s: "traceStartTime [startsAt100, Before hangingClick, After otherEnd] = 100"
    "traceStartTime [After otherEnd] = 0"
    by (simp_all add: traceStartTime_def contextOptions_def startsAt100_def orNum_def)
  from duration_of_last_event
         [of "[startsAt100, Before hangingClick, After otherEnd]" "''t''" "[]" 15]
       duration_of_last_event [of "[After otherEnd]" "''t''" "[]" 15] l s
  show ?thesis by simp
qed

text \<open>
  The claim as stated fails: the duration is negative when the last event lies before the
  recorded start.
\<close>

theorem negative_duration_counterexample:
  "TraceContext.duration (buildContext ''t'' [] [startsAt100, Before hangingClick]) = Some (- 80)
   \<and> \<not> 0 \<le> the (TraceContext.duration (buildContext ''t'' [] [startsAt100, Before hangingClick]))"
  by (simp add: buildContext_sel traceEndTime_def traceStartTime_def lastEvent_def orNum_def
      contextOptions_def startsAt100_def hangingClick_def)

section \<open>Properties of the nearest-screenshot search\<close>

lemma length_mapi [simp]: "length (mapi f xs) = length xs"
  by (simp add: mapi_def)

lemma nth_mapi [simp]: "j < length xs \<Longrightarrow> mapi f xs ! j = f (xs ! j) j"
  by (simp add: mapi_def)

lemma zip_snoc_upt: "zip (ys @ [y]) [0..<Suc (length ys)] = zip ys [0..<length ys] @ [(y, length ys)]"
  by simp

lemma closest_fold:
  "pre @ suf = arr \<Longrightarrow>
     (pre = [] \<longrightarrow> foldl (closestStep arr t) 0 (zip pre [0..<length pre]) = 0)
   \<and> (pre \<noteq> [] \<longrightarrow> foldl (closestStep arr t) 0 (zip pre [0..<length pre]) < length pre
        \<and> (\<forall>i<length pre.
              \<bar>ScreencastFrameEvent.timestamp (arr ! foldl (closestStep arr t) 0 (zip pre [0..<length pre])) - t\<bar>
                \<le> \<bar>ScreencastFrameEvent.timestamp (arr ! i) - t\<bar>))"
proof (induction pre arbitrary: suf rule: rev_induct)
  case Nil
  then show ?case by simp
next
  case (snoc y ys)
  let ?r = "foldl (closestStep arr t) 0 (zip ys [0..<length ys])"
  let ?d = "\<lambda>i. \<bar>ScreencastFrameEvent.timestamp (arr ! i) - t\<bar>"
  from snoc.prems have arr: "ys @ (y # suf) = arr" by simp
  note ih = snoc.IH [OF arr]
  have len: "length ys < length arr" using arr by auto
  have y: "arr ! length ys = y" using arr by auto
  have step: "foldl (closestStep arr t) 0 (zip (ys @ [y]) [0..<length (ys @ [y])])
                = closestStep arr t ?r (y, length ys)"
    by simp
  have rlt: "?r < length arr"
    using ih len by (cases "ys = []") auto
  have cs: "closestStep arr t ?r (y, length ys) = (if ?d (length ys) < ?d ?r then length ys else ?r)"
    using rlt y by (simp add: closestStep_def at_def)
  show ?case
  proof (cases "ys = []")
    case True
    with ih have "?r = 0" by simp
    with True y show ?thesis unfolding step cs by simp
  next
    case False
    with ih have r: "?r < length ys" and m: "\<forall>i<length ys. ?d ?r \<le> ?d i" by auto
    show ?thesis unfolding step cs
      using r m by (auto simp: less_Suc_eq)
  qed
qed

lemma closestIndex_props:
  assumes "sortedShots \<noteq> []"
  shows "closestIndex sortedShots t < length sortedShots"
    and "i < length sortedShots \<Longrightarrow>
           \<bar>ScreencastFrameEvent.timestamp (sortedShots ! closestIndex sortedShots t) - t\<bar>
             \<le> \<bar>ScreencastFrameEvent.timestamp (sortedShots ! i) - t\<bar>"
  using closest_fold [of sortedShots "[]" sortedShots t] assms by (auto simp: closestIndex_def)

lemma closestIndex_exact:
  assumes "s \<in> set sortedShots"
  shows "ScreencastFrameEvent.timestamp (sortedShots ! closestIndex sortedShots (ScreencastFrameEvent.timestamp s))
           = ScreencastFrameEvent.timestamp s"
proof -
  from assms have ne: "sortedShots \<noteq> []" by auto
  from assms obtain i where i: "i < length sortedShots" "sortedShots ! i = s" by (auto simp: in_set_conv_nth)
  from closestIndex_props(2) [OF ne i(1), of "ScreencastFrameEvent.timestamp s"] i(2)
  show ?thesis by simp
qed

lemma slice_in_range:
  "0 \<le> a \<Longrightarrow> a \<le> b \<Longrightarrow> slice a b xs = take (nat (min b (int (length xs))) - nat a) (drop (nat a) xs)"
  by (auto simp: slice_def Let_def min_def nat_diff_distrib)

lemma getScreenshotsAround_nonempty:
  fixes t :: int
  assumes "shots \<noteq> []"
  defines "sortedShots \<equiv> sort_key ScreencastFrameEvent.timestamp shots"
  defines "c \<equiv> int (closestIndex sortedShots t)"
  shows "getScreenshotsAround shots t n d =
           \<lparr> target = getScreenshotPath d (sha1 (sortedShots ! nat c)),
             targetIndex = c,
             ScreenshotResult.timestamp = ScreencastFrameEvent.timestamp (sortedShots ! nat c),
             before =
               mapi (\<lambda>screenshot idx.
                       \<lparr> index = max 0 (c - n) + int idx,
                         path = getScreenshotPath d (sha1 screenshot),
                         ScreenshotEntry.timestamp = ScreencastFrameEvent.timestamp screenshot \<rparr>)
                 (slice (max 0 (c - n)) c sortedShots),
             after =
               mapi (\<lambda>screenshot idx.
                       \<lparr> index = c + 1 + int idx,
                         path = getScreenshotPath d (sha1 screenshot),
                         ScreenshotEntry.timestamp = ScreencastFrameEvent.timestamp screenshot \<rparr>)
                 (slice (c + 1) (c + 1 + n) sortedShots) \<rparr>"
proof -
  have "length sortedShots = length shots" by (simp add: sortedShots_def)
  with assms(1) have ne: "sortedShots \<noteq> []" by auto
  from closestIndex_props(1) [OF ne] have "at sortedShots (closestIndex sortedShots t) = Some (sortedShots ! closestIndex sortedShots t)"
    by (simp add: at_def)
  with ne show ?thesis
    unfolding getScreenshotsAround_def sortedShots_def [symmetric] Let_def c_def
    by simp
qed


lemma in_set_mapi: "(e \<in> set (mapi f xs)) = (\<exists>j<length xs. e = f (xs ! j) j)"
proof
  assume "e \<in> set (mapi f xs)"
  then obtain j where "j < length (mapi f xs)" "mapi f xs ! j = e" by (auto simp: in_set_conv_nth)
  then show "\<exists>j<length xs. e = f (xs ! j) j" by auto
next
  assume "\<exists>j<length xs. e = f (xs ! j) j"
  then obtain j where j: "j < length xs" "e = f (xs ! j) j" by blast
  then have "mapi f xs ! j = e" by simp
  with j(1) show "e \<in> set (mapi f xs)" by (metis length_mapi nth_mem)
qed

lemma around_empty: "getScreenshotsAround [] t n d = noScreenshot"
  by (simp add: getScreenshotsAround_def)

lemma slice_nth:
  assumes "0 \<le> a" and "j < length (slice a b xs)"
  shows "slice a b xs ! j = xs ! (nat a + j)" and "nat a + j < length xs"
proof -
  define f where "f = (if b < 0 then max (int (length xs) + b) 0 else min b (int (length xs)))"
  have le: "a \<le> int (length xs)"
  proof (rule ccontr)
    assume "\<not> a \<le> int (length xs)"
    then have "slice a b xs = []" using assms(1) by (simp add: slice_def Let_def min_def)
    with assms(2) show False by simp
  qed
  then have sl: "slice a b xs = take (nat (f - a)) (drop (nat a) xs)"
    using assms(1) by (simp add: slice_def Let_def f_def min_def)
  from assms(2) have j: "j < nat (f - a)" "j < length xs - nat a"
    unfolding sl by simp_all
  then show "nat a + j < length xs" by simp
  then show "slice a b xs ! j = xs ! (nat a + j)"
    unfolding sl using j by simp
qed

lemma slice_length_le:
  assumes "0 \<le> a" and "0 \<le> b"
  shows "int (length (slice a b xs)) \<le> max 0 (b - a)"
  using assms by (auto simp: slice_def Let_def min_def)

lemma around_before_entries:
  fixes t n :: int and d :: string
  assumes "e \<in> set (before (getScreenshotsAround shots t n d))"
  shows "0 \<le> index e \<and> index e < targetIndex (getScreenshotsAround shots t n d)
           \<and> ScreenshotEntry.timestamp e
               = ScreencastFrameEvent.timestamp
                   (sort_key ScreencastFrameEvent.timestamp shots ! nat (index e))
           \<and> path e = getScreenshotPath d
                   (sha1 (sort_key ScreencastFrameEvent.timestamp shots ! nat (index e)))"
proof -
  define srt where "srt = sort_key ScreencastFrameEvent.timestamp shots"
  define c where "c = int (closestIndex srt t)"
  define lo where "lo = max 0 (c - n)"
  have ne: "shots \<noteq> []"
    using assms by (auto simp: around_empty noScreenshot_def)
  have lo: "0 \<le> lo" and c: "0 \<le> c" by (simp_all add: lo_def c_def)
  have r: "before (getScreenshotsAround shots t n d) = mapi (\<lambda>screenshot idx.
                       \<lparr> index = lo + int idx,
                         path = getScreenshotPath d (sha1 screenshot),
                         ScreenshotEntry.timestamp = ScreencastFrameEvent.timestamp screenshot \<rparr>)
                 (slice lo c srt)"
    and ti: "targetIndex (getScreenshotsAround shots t n d) = c"
    unfolding getScreenshotsAround_nonempty [OF ne] srt_def [symmetric] c_def [symmetric] lo_def
    by simp_all
  from assms obtain j where j: "j < length (slice lo c srt)"
    and e: "e = \<lparr> index = lo + int j,
                  path = getScreenshotPath d (sha1 (slice lo c srt ! j)),
                  ScreenshotEntry.timestamp = ScreencastFrameEvent.timestamp (slice lo c srt ! j) \<rparr>"
    unfolding r in_set_mapi by blast
  note nth = slice_nth [OF lo j]
  from slice_length_le [OF lo c, of srt] j have "int j < c - lo" by simp
  then show ?thesis
    unfolding ti e nth(1) srt_def [symmetric] using lo by (simp add: nat_add_distrib)
qed

lemma around_after_entries:
  fixes t n :: int and d :: string
  assumes "e \<in> set (after (getScreenshotsAround shots t n d))"
  shows "targetIndex (getScreenshotsAround shots t n d) < index e
           \<and> index e < int (length shots)
           \<and> ScreenshotEntry.timestamp e
               = ScreencastFrameEvent.timestamp
                   (sort_key ScreencastFrameEvent.timestamp shots ! nat (index e))
           \<and> path e = getScreenshotPath d
                   (sha1 (sort_key ScreencastFrameEvent.timestamp shots ! nat (index e)))"
proof -
  define srt where "srt = sort_key ScreencastFrameEvent.timestamp shots"
  define c where "c = int (closestIndex srt t)"
  have ne: "shots \<noteq> []"
    using assms by (auto simp: around_empty noScreenshot_def)
  have len: "length srt = length shots" by (simp add: srt_def)
  have c: "0 \<le> c + 1" by (simp add: c_def)
  have r: "after (getScreenshotsAround shots t n d) = mapi (\<lambda>screenshot idx.
                       \<lparr> index = c + 1 + int idx,
                         path = getScreenshotPath d (sha1 screenshot),
                         ScreenshotEntry.timestamp = ScreencastFrameEvent.timestamp screenshot \<rparr>)
                 (slice (c + 1) (c + 1 + n) srt)"
    and ti: "targetIndex (getScreenshotsAround shots t n d) = c"
    unfolding getScreenshotsAround_nonempty [OF ne] srt_def [symmetric] c_def [symmetric]
    by simp_all
  from assms obtain j where j: "j < length (slice (c + 1) (c + 1 + n) srt)"
    and e: "e = \<lparr> index = c + 1 + int j,
                  path = getScreenshotPath d (sha1 (slice (c + 1) (c + 1 + n) srt ! j)),
                  ScreenshotEntry.timestamp
                    = ScreencastFrameEvent.timestamp (slice (c + 1) (c + 1 + n) srt ! j) \<rparr>"
    unfolding r in_set_mapi by blast
  note nth = slice_nth [OF c j]
  from nth(2) len have "c + 1 + int j < int (length shots)" using c by simp
  then show ?thesis
    unfolding ti e nth(1) srt_def [symmetric] using c by (simp add: nat_add_distrib)
qed

lemma around_lengths:
  fixes t n :: int and d :: string
  assumes ne: "shots \<noteq> []" and n: "0 \<le> n"
  shows "int (length (before (getScreenshotsAround shots t n d)))
           = min n (targetIndex (getScreenshotsAround shots t n d))"
    and "int (length (after (getScreenshotsAround shots t n d)))
           = min n (int (length shots) - 1 - targetIndex (getScreenshotsAround shots t n d))"
proof -
  define srt where "srt = sort_key ScreencastFrameEvent.timestamp shots"
  define c where "c = int (closestIndex srt t)"
  have len: "length srt = length shots" by (simp add: srt_def)
  with ne have sne: "srt \<noteq> []" by auto
  have c: "0 \<le> c" "c < int (length srt)"
    using closestIndex_props(1) [OF sne, of t] by (simp_all add: c_def)
  have lb: "int (length (slice (max 0 (c - n)) c srt)) = min n c"
    using c n by (auto simp: slice_def Let_def min_def max_def)
  have la: "int (length (slice (c + 1) (c + 1 + n) srt)) = min n (int (length srt) - 1 - c)"
    using c n by (auto simp: slice_def Let_def min_def max_def)
  show "int (length (before (getScreenshotsAround shots t n d)))
           = min n (targetIndex (getScreenshotsAround shots t n d))"
    unfolding getScreenshotsAround_nonempty [OF ne] srt_def [symmetric] c_def [symmetric]
    using lb by simp
  show "int (length (after (getScreenshotsAround shots t n d)))
           = min n (int (length shots) - 1 - targetIndex (getScreenshotsAround shots t n d))"
    unfolding getScreenshotsAround_nonempty [OF ne] srt_def [symmetric] c_def [symmetric]
    using la len by simp
qed

lemma around_exact:
  fixes n :: int and d :: string
  assumes "s \<in> set shots"
  defines "srt \<equiv> sort_key ScreencastFrameEvent.timestamp shots"
  defines "r \<equiv> getScreenshotsAround shots (ScreencastFrameEvent.timestamp s) n d"
  shows "ScreenshotResult.timestamp r = ScreencastFrameEvent.timestamp s"
    and "0 \<le> targetIndex r" and "targetIndex r < int (length shots)"
    and "ScreencastFrameEvent.timestamp (srt ! nat (targetIndex r)) = ScreencastFrameEvent.timestamp s"
    and "target r = getScreenshotPath d (sha1 (srt ! nat (targetIndex r)))"
proof -
  from assms(1) have ne: "shots \<noteq> []" by auto
  have len: "length srt = length shots" by (simp add: srt_def)
  with ne have sne: "srt \<noteq> []" by auto
  have mem: "s \<in> set srt" using assms(1) by (simp add: srt_def)
  note ex = closestIndex_exact [OF mem]
  note lt = closestIndex_props(1) [OF sne, of "ScreencastFrameEvent.timestamp s"]
  show "ScreenshotResult.timestamp r = ScreencastFrameEvent.timestamp s"
    and "0 \<le> targetIndex r" and "targetIndex r < int (length shots)"
    and "ScreencastFrameEvent.timestamp (srt ! nat (targetIndex r)) = ScreencastFrameEvent.timestamp s"
    and "target r = getScreenshotPath d (sha1 (srt ! nat (targetIndex r)))"
    unfolding r_def getScreenshotsAround_nonempty [OF ne] srt_def [symmetric]
    using ex lt len by simp_all
qed

text \<open>
  Claim C7. When the query time is the timestamp of one of the screenshots, the target of
  the search is a screenshot of the sorted list with exactly that timestamp. For every
  query, every entry of the lists before and after the target carries an index inside
  the sorted list, before respectively after the target, with the path and timestamp of
  the screenshot at that index: no read leaves the array. For every requested count
  \<open>n \<ge> 0\<close> the two lists are clipped at the ends of the sorted list: the list before
  holds \<open>min n i\<close> entries and the list after \<open>min n (length - 1 - i)\<close>, where \<open>i\<close> is the
  index of the target, so each holds at most \<open>n\<close>. Without screenshots the search
  returns the empty result.
\<close>

theorem nearest_screenshot_exact_and_clipped:
  fixes t n :: int and d :: string
  shows
  "(s \<in> set shots \<longrightarrow>
      ScreenshotResult.timestamp
          (getScreenshotsAround shots (ScreencastFrameEvent.timestamp s) n d)
        = ScreencastFrameEvent.timestamp s
      \<and> 0 \<le> targetIndex (getScreenshotsAround shots (ScreencastFrameEvent.timestamp s) n d)
      \<and> targetIndex (getScreenshotsAround shots (ScreencastFrameEvent.timestamp s) n d)
          < int (length shots)
      \<and> ScreencastFrameEvent.timestamp
          (sort_key ScreencastFrameEvent.timestamp shots
             ! nat (targetIndex (getScreenshotsAround shots (ScreencastFrameEvent.timestamp s) n d)))
          = ScreencastFrameEvent.timestamp s
      \<and> target (getScreenshotsAround shots (ScreencastFrameEvent.timestamp s) n d)
          = getScreenshotPath d (sha1 (sort_key ScreencastFrameEvent.timestamp shots
             ! nat (targetIndex (getScreenshotsAround shots (ScreencastFrameEvent.timestamp s) n d)))))
   \<and> (shots \<noteq> [] \<and> 0 \<le> n \<longrightarrow>
        int (length (before (getScreenshotsAround shots t n d)))
          = min n (targetIndex (getScreenshotsAround shots t n d))
        \<and> int (length (after (getScreenshotsAround shots t n d)))
          = min n (int (length shots) - 1 - targetIndex (getScreenshotsAround shots t n d))
        \<and> int (length (before (getScreenshotsAround shots t n d))) \<le> n
        \<and> int (length (after (getScreenshotsAround shots t n d))) \<le> n)
   \<and> (\<forall>e\<in>set (before (getScreenshotsAround shots t n d)).
          0 \<le> index e \<and> index e < targetIndex (getScreenshotsAround shots t n d)
          \<and> ScreenshotEntry.timestamp e
              = ScreencastFrameEvent.timestamp
                  (sort_key ScreencastFrameEvent.timestamp shots ! nat (index e))
          \<and> path e = getScreenshotPath d
              (sha1 (sort_key ScreencastFrameEvent.timestamp shots ! nat (index e))))
   \<and> (\<forall>e\<in>set (after (getScreenshotsAround shots t n d)).
          targetIndex (getScreenshotsAround shots t n d) < index e
          \<and> index e < int (length shots)
          \<and> ScreenshotEntry.timestamp e
              = ScreencastFrameEvent.timestamp
                  (sort_key ScreencastFrameEvent.timestamp shots ! nat (index e))
          \<and> path e = getScreenshotPath d
              (sha1 (sort_key ScreencastFrameEvent.timestamp shots ! nat (index e))))
   \<and> getScreenshotsAround [] t n d = noScreenshot"
proof (intro conjI impI ballI)
  assume "s \<in> set shots"
  note ex = around_exact [OF this, where n = n and d = d]
  show "ScreenshotResult.timestamp
          (getScreenshotsAround shots (ScreencastFrameEvent.timestamp s) n d)
        = ScreencastFrameEvent.timestamp s" by (rule ex)
  show "0 \<le> targetIndex (getScreenshotsAround shots (ScreencastFrameEvent.timestamp s) n d)"
    by (rule ex)
  show "targetIndex (getScreenshotsAround shots (ScreencastFrameEvent.timestamp s) n d)
          < int (length shots)" by (rule ex)
  show "ScreencastFrameEvent.timestamp
          (sort_key ScreencastFrameEvent.timestamp shots
             ! nat (targetIndex (getScreenshotsAround shots (ScreencastFrameEvent.timestamp s) n d)))
          = ScreencastFrameEvent.timestamp s" by (rule ex)
  show "target (getScreenshotsAround shots (ScreencastFrameEvent.timestamp s) n d)
          = getScreenshotPath d (sha1 (sort_key ScreencastFrameEvent.timestamp shots
             ! nat (targetIndex (getScreenshotsAround shots (ScreencastFrameEvent.timestamp s) n d))))"
    by (rule ex)
next
  assume a: "shots \<noteq> [] \<and> 0 \<le> n"
  then have ne: "shots \<noteq> []" and n: "0 \<le> n" by simp_all
  note l = around_lengths [OF ne n, where t = t and d = d]
  show lb: "int (length (before (getScreenshotsAround shots t n d)))
          = min n (targetIndex (getScreenshotsAround shots t n d))" by (rule l)
  show la: "int (length (after (getScreenshotsAround shots t n d)))
          = min n (int (length shots) - 1 - targetIndex (getScreenshotsAround shots t n d))"
    by (rule l)
  show "int (length (before (getScreenshotsAround shots t n d))) \<le> n" unfolding lb by simp
  show "int (length (after (getScreenshotsAround shots t n d))) \<le> n" unfolding la by simp
next
  fix e assume "e \<in> set (before (getScreenshotsAround shots t n d))"
  note be = around_before_entries [OF this]
  show "0 \<le> index e" using be by simp
  show "index e < targetIndex (getScreenshotsAround shots t n d)" using be by simp
  show "ScreenshotEntry.timestamp e
              = ScreencastFrameEvent.timestamp
                  (sort_key ScreencastFrameEvent.timestamp shots ! nat (index e))"
    using be by simp
  show "path e = getScreenshotPath d
              (sha1 (sort_key ScreencastFrameEvent.timestamp shots ! nat (index e)))"
    using be by simp
next
  fix e assume "e \<in> set (after (getScreenshotsAround shots t n d))"
  note fe = around_after_entries [OF this]
  show "targetIndex (getScreenshotsAround shots t n d) < index e" using fe by simp
  show "index e < int (length shots)" using fe by simp
  show "ScreenshotEntry.timestamp e
              = ScreencastFrameEvent.timestamp
                  (sort_key ScreencastFrameEvent.timestamp shots ! nat (index e))"
    using fe by simp
  show "path e = getScreenshotPath d
              (sha1 (sort_key ScreencastFrameEvent.timestamp shots ! nat (index e)))"
    using fe by simp
next
  show "getScreenshotsAround [] t n d = noScreenshot" by (rule around_empty)
qed

text \<open>
  The witness is the command \<^verbatim>\<open>screenshot --at 2 --context 1\<close> on five screenshots: the
  query time is the timestamp of the third screenshot of the sorted list.
\<close>

theorem nearest_screenshot_exact_and_clipped_witness:
  "\<lparr> sha1 = ''c.jpeg'', ScreencastFrameEvent.timestamp = 30 \<rparr> \<in> set fiveShots
   \<and> fiveShots \<noteq> [] \<and> (0 :: int) \<le> 1
   \<and> map ScreencastFrameEvent.timestamp (sort_key ScreencastFrameEvent.timestamp fiveShots)
       = [10, 20, 30, 40, 50]
   \<and> getScreenshotsAround fiveShots 30 1 ''/results/run/unzipped''
       = \<lparr> target = ''/results/run/unzipped/resources/c.jpeg'',
           targetIndex = 2,
           ScreenshotResult.timestamp = 30,
           before = [\<lparr> index = 1, path = ''/results/run/unzipped/resources/b.jpeg'',
                       ScreenshotEntry.timestamp = 20 \<rparr>],
           after = [\<lparr> index = 3, path = ''/results/run/unzipped/resources/d.jpeg'',
                      ScreenshotEntry.timestamp = 40 \<rparr>] \<rparr>"
proof -
  have m: "\<lparr> sha1 = ''c.jpeg'', ScreencastFrameEvent.timestamp = 30 \<rparr> \<in> set fiveShots"
    "fiveShots \<noteq> []"
    by (simp_all add: fiveShots_def)
  have srt: "map ScreencastFrameEvent.timestamp (sort_key ScreencastFrameEvent.timestamp fiveShots)
       = [10, 20, 30, 40, 50]"
    by code_simp
  have ev: "getScreenshotsAround fiveShots 30 1 ''/results/run/unzipped''
       = \<lparr> target = ''/results/run/unzipped/resources/c.jpeg'',
           targetIndex = 2,
           ScreenshotResult.timestamp = 30,
           before = [\<lparr> index = 1, path = ''/results/run/unzipped/resources/b.jpeg'',
                       ScreenshotEntry.timestamp = 20 \<rparr>],
           after = [\<lparr> index = 3, path = ''/results/run/unzipped/resources/d.jpeg'',
                      ScreenshotEntry.timestamp = 40 \<rparr>] \<rparr>"
    by code_simp
  from nearest_screenshot_exact_and_clipped
         [of "\<lparr> sha1 = ''c.jpeg'', ScreencastFrameEvent.timestamp = 30 \<rparr>" fiveShots 1
             "''/results/run/unzipped''" 30]
       m srt ev
  show ?thesis by simp
qed

section \<open>Properties of the diagnostic engine\<close>

lemma slice_take: "0 \<le> n \<Longrightarrow> slice 0 n xs = take (nat n) xs"
  by (auto simp: slice_def Let_def min_def)

lemma not_dup_apart: "\<not> isDuplicate acc x \<Longrightarrow> a \<in> set acc \<Longrightarrow> apart a x"
  by (auto simp: isDuplicate_def list_ex_iff apart_def)

lemma dedupe_fold_apart:
  "sorted_wrt apart acc \<Longrightarrow> sorted_wrt apart (foldl dedupeStep acc xs)"
proof (induction xs arbitrary: acc)
  case Nil
  then show ?case by simp
next
  case (Cons x xs)
  have "sorted_wrt apart (dedupeStep acc x)"
    using Cons.prems not_dup_apart [of acc x] by (simp add: dedupeStep_def sorted_wrt_append)
  from Cons.IH [OF this] show ?case by simp
qed

lemma dedupe_apart: "sorted_wrt apart (dedupe xs)"
  unfolding dedupe_def by (rule dedupe_fold_apart) simp

lemma dedupeStep_bounds:
  "set acc \<subseteq> set (dedupeStep acc x)" "set (dedupeStep acc x) \<subseteq> insert x (set acc)"
  by (auto simp: dedupeStep_def)

lemma dedupe_fold_prefix: "set acc \<subseteq> set (foldl dedupeStep acc xs)"
proof (induction xs arbitrary: acc)
  case Nil
  then show ?case by simp
next
  case (Cons x xs)
  have "set acc \<subseteq> set (dedupeStep acc x)" by (rule dedupeStep_bounds)
  also have "\<dots> \<subseteq> set (foldl dedupeStep (dedupeStep acc x) xs)" by (rule Cons.IH)
  finally show ?case by simp
qed

lemma dedupe_fold_subset: "set (foldl dedupeStep acc xs) \<subseteq> set acc \<union> set xs"
proof (induction xs arbitrary: acc)
  case Nil
  then show ?case by simp
next
  case (Cons x xs)
  have "set (foldl dedupeStep (dedupeStep acc x) xs) \<subseteq> set (dedupeStep acc x) \<union> set xs" by (rule Cons.IH)
  with dedupeStep_bounds(2) [of acc x] show ?case by auto
qed
lemma covers_mono: "set a \<subseteq> set b \<Longrightarrow> covers a x \<Longrightarrow> covers b x"
  unfolding covers_def by blast

lemma dedupe_fold_covers:
  assumes "sorted (map DiagnosticIssue.timestamp xs)"
    and "\<forall>a\<in>set acc. \<forall>x\<in>set xs. DiagnosticIssue.timestamp a \<le> DiagnosticIssue.timestamp x"
    and "x \<in> set xs"
  shows "covers (foldl dedupeStep acc xs) x"
  using assms
proof (induction xs arbitrary: acc)
  case Nil
  then show ?case by simp
next
  case (Cons y ys)
  let ?acc = "dedupeStep acc y"
  have le: "\<forall>a\<in>set ?acc. \<forall>x\<in>set ys. DiagnosticIssue.timestamp a \<le> DiagnosticIssue.timestamp x"
    using Cons.prems(1,2) by (auto simp: dedupeStep_def)
  have srt: "sorted (map DiagnosticIssue.timestamp ys)" using Cons.prems(1) by simp
  show ?case
  proof (cases "x \<in> set ys")
    case True
    from Cons.IH [OF srt le True] show ?thesis by simp
  next
    case False
    with Cons.prems(3) have xy: "x = y" by simp
    have "covers ?acc y"
    proof (cases "isDuplicate acc y")
      case True
      then obtain k where k: "k \<in> set acc"
        "DiagnosticIssue.category k = DiagnosticIssue.category y"
        "\<bar>DiagnosticIssue.timestamp k - DiagnosticIssue.timestamp y\<bar> < 1000"
        by (auto simp: isDuplicate_def list_ex_iff)
      moreover from k(1) Cons.prems(2) have "DiagnosticIssue.timestamp k \<le> DiagnosticIssue.timestamp y"
        by simp
      ultimately show ?thesis using True unfolding covers_def by (intro bexI [of _ k]) (auto simp: dedupeStep_def)
    next
      case False
      then show ?thesis unfolding covers_def by (intro bexI [of _ y]) (auto simp: dedupeStep_def)
    qed
    then have "covers (foldl dedupeStep ?acc ys) y"
      by (rule covers_mono [OF dedupe_fold_prefix])
    with xy show ?thesis by simp
  qed
qed

lemma dedupe_fold_sorted:
  assumes "sorted (map DiagnosticIssue.timestamp xs)"
    and "sorted (map DiagnosticIssue.timestamp acc)"
    and "\<forall>a\<in>set acc. \<forall>x\<in>set xs. DiagnosticIssue.timestamp a \<le> DiagnosticIssue.timestamp x"
  shows "sorted (map DiagnosticIssue.timestamp (foldl dedupeStep acc xs))"
  using assms
proof (induction xs arbitrary: acc)
  case Nil
  then show ?case by simp
next
  case (Cons y ys)
  let ?acc = "dedupeStep acc y"
  have 1: "sorted (map DiagnosticIssue.timestamp ys)" using Cons.prems(1) by simp
  have 2: "sorted (map DiagnosticIssue.timestamp ?acc)"
    using Cons.prems(2,3) by (auto simp: dedupeStep_def sorted_append)
  have 3: "\<forall>a\<in>set ?acc. \<forall>x\<in>set ys. DiagnosticIssue.timestamp a \<le> DiagnosticIssue.timestamp x"
    using Cons.prems(1,3) by (auto simp: dedupeStep_def)
  from Cons.IH [OF 1 2 3] show ?case by simp
qed

lemma uniqueIssues_sorted: "sorted (map DiagnosticIssue.timestamp (uniqueIssues J fs ctx))"
  unfolding uniqueIssues_def dedupe_def by (rule dedupe_fold_sorted) simp_all

lemma uniqueIssues_apart: "sorted_wrt apart (uniqueIssues J fs ctx)"
  unfolding uniqueIssues_def by (rule dedupe_apart)

lemma uniqueIssues_subset: "set (uniqueIssues J fs ctx) \<subseteq> set (collectIssues J fs ctx)"
  unfolding uniqueIssues_def dedupe_def
  using dedupe_fold_subset [of "[]" "sort_key DiagnosticIssue.timestamp (collectIssues J fs ctx)"] by simp

lemma uniqueIssues_covers:
  "x \<in> set (collectIssues J fs ctx) \<Longrightarrow> covers (uniqueIssues J fs ctx) x"
  unfolding uniqueIssues_def dedupe_def by (rule dedupe_fold_covers) simp_all

lemma countCategory_fold:
  "foldl countCategory m xs c =
     (if filter (\<lambda>i. DiagnosticIssue.category i = c) xs = [] then m c
      else Some ((case m c of None \<Rightarrow> 0 | Some k \<Rightarrow> k)
                 + length (filter (\<lambda>i. DiagnosticIssue.category i = c) xs)))"
proof (induction xs arbitrary: m)
  case Nil
  then show ?case by simp
next
  case (Cons x xs)
  show ?case
    unfolding foldl_Cons Cons.IH
    by (auto simp: countCategory_def)
qed

lemma getDiagnoseResults_sel:
  "issues (getDiagnoseResults J fs ctx v) =
     map reportIssue (take 10 (if v then uniqueIssues J fs ctx
                               else filter (\<lambda>i. \<not> isRecovered i) (uniqueIssues J fs ctx)))"
  "byCategory (getDiagnoseResults J fs ctx v) =
     foldl countCategory Map.empty (filter (\<lambda>i. \<not> isRecovered i) (uniqueIssues J fs ctx))"
  "issueCount (getDiagnoseResults J fs ctx v) =
     length (filter (\<lambda>i. \<not> isRecovered i) (uniqueIssues J fs ctx))"
  by (simp_all add: getDiagnoseResults_def Let_def slice_take)

lemma reported_apart:
  assumes "sorted_wrt apart xs"
  shows "sorted_wrt (\<lambda>a b. ReportedIssue.category a = ReportedIssue.category b \<longrightarrow>
                 1000 \<le> \<bar>ReportedIssue.timestamp a - ReportedIssue.timestamp b\<bar>)
               (map reportIssue (take 10 xs))"
proof -
  from assms have "sorted_wrt apart (take 10 xs)" by (rule sorted_wrt_take)
  then show ?thesis
    unfolding sorted_wrt_map by (simp add: apart_def [abs_def] reportIssue_def)
qed

lemma reported_sorted:
  assumes "sorted (map DiagnosticIssue.timestamp xs)"
  shows "sorted (map ReportedIssue.timestamp (map reportIssue (take 10 xs)))"
    and "\<forall>a\<in>set (take 10 xs). \<forall>b\<in>set (drop 10 xs).
           DiagnosticIssue.timestamp a \<le> DiagnosticIssue.timestamp b"
proof -
  have "sorted (map DiagnosticIssue.timestamp (take 10 xs @ drop 10 xs))"
    using assms by simp
  then have split: "sorted (map DiagnosticIssue.timestamp (take 10 xs))"
    "\<forall>a\<in>set (take 10 xs). \<forall>b\<in>set (drop 10 xs).
       DiagnosticIssue.timestamp a \<le> DiagnosticIssue.timestamp b"
    unfolding map_append sorted_append by auto
  have "map ReportedIssue.timestamp (map reportIssue (take 10 xs))
          = map DiagnosticIssue.timestamp (take 10 xs)"
    by (simp add: reportIssue_def comp_def)
  with split(1) have "sorted (map ReportedIssue.timestamp (map reportIssue (take 10 xs)))"
    by (simp only:)
  with split(2) show "sorted (map ReportedIssue.timestamp (map reportIssue (take 10 xs)))"
    and "\<forall>a\<in>set (take 10 xs). \<forall>b\<in>set (drop 10 xs).
           DiagnosticIssue.timestamp a \<le> DiagnosticIssue.timestamp b"
    by blast+
qed

text \<open>
  Claim C3. In the deduplicated issue set, and so in the issues of the report, two issues
  of the same category lie at least 1000 ms apart. Every deduplicated issue is one of
  the collected issues, and every collected issue is represented by a kept issue of its
  category that is not later and less than 1000 ms earlier: a group that collapses
  keeps its earliest issue.
\<close>

theorem dedup_invariant:
  "(\<forall>i j. i < j \<and> j < length (uniqueIssues J fs ctx)
          \<and> DiagnosticIssue.category (uniqueIssues J fs ctx ! i)
              = DiagnosticIssue.category (uniqueIssues J fs ctx ! j)
      \<longrightarrow> 1000 \<le> \<bar>DiagnosticIssue.timestamp (uniqueIssues J fs ctx ! i)
                     - DiagnosticIssue.timestamp (uniqueIssues J fs ctx ! j)\<bar>)
   \<and> set (uniqueIssues J fs ctx) \<subseteq> set (collectIssues J fs ctx)
   \<and> (\<forall>x\<in>set (collectIssues J fs ctx). \<exists>k\<in>set (uniqueIssues J fs ctx).
          DiagnosticIssue.category k = DiagnosticIssue.category x
          \<and> DiagnosticIssue.timestamp k \<le> DiagnosticIssue.timestamp x
          \<and> DiagnosticIssue.timestamp x - DiagnosticIssue.timestamp k < 1000)
   \<and> (\<forall>i j. i < j \<and> j < length (issues (getDiagnoseResults J fs ctx verbose))
          \<and> ReportedIssue.category (issues (getDiagnoseResults J fs ctx verbose) ! i)
              = ReportedIssue.category (issues (getDiagnoseResults J fs ctx verbose) ! j)
      \<longrightarrow> 1000 \<le> \<bar>ReportedIssue.timestamp (issues (getDiagnoseResults J fs ctx verbose) ! i)
                     - ReportedIssue.timestamp (issues (getDiagnoseResults J fs ctx verbose) ! j)\<bar>)"
proof (intro conjI)
  show "\<forall>i j. i < j \<and> j < length (uniqueIssues J fs ctx)
          \<and> DiagnosticIssue.category (uniqueIssues J fs ctx ! i)
              = DiagnosticIssue.category (uniqueIssues J fs ctx ! j)
      \<longrightarrow> 1000 \<le> \<bar>DiagnosticIssue.timestamp (uniqueIssues J fs ctx ! i)
                     - DiagnosticIssue.timestamp (uniqueIssues J fs ctx ! j)\<bar>"
    using uniqueIssues_apart [of J fs ctx]
    by (simp add: sorted_wrt_iff_nth_less apart_def)
  show "set (uniqueIssues J fs ctx) \<subseteq> set (collectIssues J fs ctx)"
    by (rule uniqueIssues_subset)
  show "\<forall>x\<in>set (collectIssues J fs ctx). \<exists>k\<in>set (uniqueIssues J fs ctx).
          DiagnosticIssue.category k = DiagnosticIssue.category x
          \<and> DiagnosticIssue.timestamp k \<le> DiagnosticIssue.timestamp x
          \<and> DiagnosticIssue.timestamp x - DiagnosticIssue.timestamp k < 1000"
    using uniqueIssues_covers [of _ J fs ctx] by (simp add: covers_def)
  let ?active = "if verbose then uniqueIssues J fs ctx
                 else filter (\<lambda>i. \<not> isRecovered i) (uniqueIssues J fs ctx)"
  have "sorted_wrt apart ?active"
    using uniqueIssues_apart [of J fs ctx] by (simp add: sorted_wrt_filter)
  then have "sorted_wrt (\<lambda>a b. ReportedIssue.category a = ReportedIssue.category b \<longrightarrow>
                 1000 \<le> \<bar>ReportedIssue.timestamp a - ReportedIssue.timestamp b\<bar>)
               (issues (getDiagnoseResults J fs ctx verbose))"
    unfolding getDiagnoseResults_sel by (rule reported_apart)
  then show "\<forall>i j. i < j \<and> j < length (issues (getDiagnoseResults J fs ctx verbose))
          \<and> ReportedIssue.category (issues (getDiagnoseResults J fs ctx verbose) ! i)
              = ReportedIssue.category (issues (getDiagnoseResults J fs ctx verbose) ! j)
      \<longrightarrow> 1000 \<le> \<bar>ReportedIssue.timestamp (issues (getDiagnoseResults J fs ctx verbose) ! i)
                     - ReportedIssue.timestamp (issues (getDiagnoseResults J fs ctx verbose) ! j)\<bar>"
    by (simp add: sorted_wrt_iff_nth_less)
qed

theorem dedup_invariant_witness:
  "map DiagnosticIssue.timestamp
       (collectIssues sampleJson noFiles (buildContext ''t'' [] burstTrace)) = [1500, 0, 500]
   \<and> map DiagnosticIssue.category
       (collectIssues sampleJson noFiles (buildContext ''t'' [] burstTrace))
       = [''Timeout'', ''Timeout'', ''Timeout'']
   \<and> map DiagnosticIssue.timestamp
       (uniqueIssues sampleJson noFiles (buildContext ''t'' [] burstTrace)) = [0, 1500]
   \<and> map ReportedIssue.timestamp
       (issues (getDiagnoseResults sampleJson noFiles (buildContext ''t'' [] burstTrace) False))
       = [0, 1500]"
proof -
  have ev: "map DiagnosticIssue.timestamp
       (collectIssues sampleJson noFiles (buildContext ''t'' [] burstTrace)) = [1500, 0, 500]"
    "map DiagnosticIssue.category
       (collectIssues sampleJson noFiles (buildContext ''t'' [] burstTrace))
       = [''Timeout'', ''Timeout'', ''Timeout'']"
    "map DiagnosticIssue.timestamp
       (uniqueIssues sampleJson noFiles (buildContext ''t'' [] burstTrace)) = [0, 1500]"
    "map ReportedIssue.timestamp
       (issues (getDiagnoseResults sampleJson noFiles (buildContext ''t'' [] burstTrace) False))
       = [0, 1500]"
    by code_simp+
  from dedup_invariant [of sampleJson noFiles "buildContext ''t'' [] burstTrace" False] ev
  show ?thesis by blast
qed

text \<open>
  Claim C9. The report lists at most 10 issues: the first 10 of the active issues, which
  are in ascending order of timestamp, so that no listed issue is later than an active
  issue left out. The counts by category and the issue count are taken over all
  deduplicated issues that are not recovered, whatever the cap leaves out.
\<close>

theorem issue_list_capped:
  "length (issues (getDiagnoseResults J fs ctx verbose)) \<le> 10
   \<and> issues (getDiagnoseResults J fs ctx verbose)
       = map reportIssue (take 10 (if verbose then uniqueIssues J fs ctx
                                   else filter (\<lambda>i. \<not> isRecovered i) (uniqueIssues J fs ctx)))
   \<and> sorted (map ReportedIssue.timestamp (issues (getDiagnoseResults J fs ctx verbose)))
   \<and> (\<forall>a\<in>set (take 10 (if verbose then uniqueIssues J fs ctx
                          else filter (\<lambda>i. \<not> isRecovered i) (uniqueIssues J fs ctx))).
        \<forall>b\<in>set (drop 10 (if verbose then uniqueIssues J fs ctx
                          else filter (\<lambda>i. \<not> isRecovered i) (uniqueIssues J fs ctx))).
          DiagnosticIssue.timestamp a \<le> DiagnosticIssue.timestamp b)
   \<and> (\<forall>c. byCategory (getDiagnoseResults J fs ctx verbose) c
          = (if filter (\<lambda>i. DiagnosticIssue.category i = c)
                  (filter (\<lambda>i. \<not> isRecovered i) (uniqueIssues J fs ctx)) = []
             then None
             else Some (length (filter (\<lambda>i. DiagnosticIssue.category i = c)
                          (filter (\<lambda>i. \<not> isRecovered i) (uniqueIssues J fs ctx))))))
   \<and> issueCount (getDiagnoseResults J fs ctx verbose)
       = length (filter (\<lambda>i. \<not> isRecovered i) (uniqueIssues J fs ctx))"
proof -
  let ?active = "if verbose then uniqueIssues J fs ctx
                 else filter (\<lambda>i. \<not> isRecovered i) (uniqueIssues J fs ctx)"
  have srt: "sorted (map DiagnosticIssue.timestamp ?active)"
    using uniqueIssues_sorted [of J fs ctx] by (simp add: sorted_filter)
  note split = reported_sorted [OF srt]
  from split(1) have rs: "sorted (map ReportedIssue.timestamp (issues (getDiagnoseResults J fs ctx verbose)))"
    unfolding getDiagnoseResults_sel .
  have len: "length (issues (getDiagnoseResults J fs ctx verbose)) \<le> 10"
    unfolding getDiagnoseResults_sel by simp
  show ?thesis
  proof (intro conjI)
    show "length (issues (getDiagnoseResults J fs ctx verbose)) \<le> 10" by (rule len)
    show "issues (getDiagnoseResults J fs ctx verbose) = map reportIssue (take 10 ?active)"
      by (rule getDiagnoseResults_sel)
    show "sorted (map ReportedIssue.timestamp (issues (getDiagnoseResults J fs ctx verbose)))"
      by (rule rs)
    show "\<forall>a\<in>set (take 10 ?active). \<forall>b\<in>set (drop 10 ?active).
            DiagnosticIssue.timestamp a \<le> DiagnosticIssue.timestamp b"
      by (rule split(2))
    show "\<forall>c. byCategory (getDiagnoseResults J fs ctx verbose) c
          = (if filter (\<lambda>i. DiagnosticIssue.category i = c)
                  (filter (\<lambda>i. \<not> isRecovered i) (uniqueIssues J fs ctx)) = []
             then None
             else Some (length (filter (\<lambda>i. DiagnosticIssue.category i = c)
                          (filter (\<lambda>i. \<not> isRecovered i) (uniqueIssues J fs ctx)))))"
      unfolding getDiagnoseResults_sel countCategory_fold by simp
    show "issueCount (getDiagnoseResults J fs ctx verbose)
       = length (filter (\<lambda>i. \<not> isRecovered i) (uniqueIssues J fs ctx))"
      by (rule getDiagnoseResults_sel)
  qed
qed

theorem issue_list_capped_witness:
  "length (uniqueIssues sampleJson noFiles (buildContext ''t'' [] longTrace)) = 12
   \<and> map ReportedIssue.timestamp
         (issues (getDiagnoseResults sampleJson noFiles (buildContext ''t'' [] longTrace) False))
       = [0, 1000, 2000, 3000, 4000, 5000, 6000, 7000, 8000, 9000]
   \<and> length (issues (getDiagnoseResults sampleJson noFiles (buildContext ''t'' [] longTrace) False))
       \<le> 10
   \<and> byCategory (getDiagnoseResults sampleJson noFiles (buildContext ''t'' [] longTrace) False)
         ''Timeout'' = Some 12
   \<and> issueCount (getDiagnoseResults sampleJson noFiles (buildContext ''t'' [] longTrace) False)
       = 12"
proof -
  have ev: "length (uniqueIssues sampleJson noFiles (buildContext ''t'' [] longTrace)) = 12"
    "map ReportedIssue.timestamp
         (issues (getDiagnoseResults sampleJson noFiles (buildContext ''t'' [] longTrace) False))
       = [0, 1000, 2000, 3000, 4000, 5000, 6000, 7000, 8000, 9000]"
    "byCategory (getDiagnoseResults sampleJson noFiles (buildContext ''t'' [] longTrace) False)
         ''Timeout'' = Some 12"
    "issueCount (getDiagnoseResults sampleJson noFiles (buildContext ''t'' [] longTrace) False)
       = 12"
    by code_simp+
  from issue_list_capped [of sampleJson noFiles "buildContext ''t'' [] longTrace" False] ev
  show ?thesis by blast
qed

section \<open>Properties of the line parser\<close>

lemma map_filter_map: "List.map_filter f (map g xs) = List.map_filter (\<lambda>x. f (g x)) xs"
  by (induction xs) (simp_all add: List.map_filter_simps split: option.splits)

lemma parseJsonlFile_Some:
  "parseJsonlFile J (Some content) =
     (List.map_filter (\<lambda>l. fst (parseLine J l)) (filter (\<lambda>line. trim line \<noteq> []) (splitStr (CHR 0x0A) content)),
      concat (map (\<lambda>l. snd (parseLine J l)) (filter (\<lambda>line. trim line \<noteq> []) (splitStr (CHR 0x0A) content))))"
  by (simp add: parseJsonlFile_def Let_def map_filter_map comp_def)

lemma length_events:
  "length (List.map_filter (\<lambda>l. fst (parseLine J l)) ls)
     = length (filter (\<lambda>l. case J l of JsonValue v \<Rightarrow> True | _ \<Rightarrow> False) ls)"
  by (induction ls) (auto simp: List.map_filter_simps parseLine_def split: JsonResult.splits)

lemma events_eq:
  "List.map_filter (\<lambda>l. fst (parseLine J l)) ls
     = List.map_filter (\<lambda>l. case J l of JsonValue v \<Rightarrow> Some v | _ \<Rightarrow> None) ls"
  by (induction ls) (auto simp: List.map_filter_simps parseLine_def split: JsonResult.splits)

lemma warnings_eq:
  "concat (map (\<lambda>l. snd (parseLine J l)) ls)
     = map (\<lambda>l. ''Failed to parse line: '' @ take 100 l @ ''...'') (filter (\<lambda>l. J l = SyntaxError) ls)"
  by (induction ls) (auto simp: parseLine_def slice_take split: JsonResult.splits)

lemma splitStr_no_sep: "sep \<notin> set a \<Longrightarrow> splitStr sep a = [a]"
  by (induction a) auto

lemma splitStr_append: "sep \<notin> set a \<Longrightarrow> splitStr sep (a @ sep # b) = a # splitStr sep b"
  by (induction a) auto

text \<open>
  Claim C5, as amended. The line parser never aborts. A file that does not exist yields
  no event and no warning. Otherwise the events are the values of the non-blank lines
  that decode to a value other than \<open>null\<close>, in order, so their number is the number of
  such lines; a line that decodes to \<open>null\<close> yields no event and no warning; and there
  is one warning for each non-blank line that fails to decode. In particular a
  malformed line followed by two lines that decode to values yields exactly these two
  events and one warning.
\<close>

theorem parseJsonlFile_tolerant:
  fixes JSON_parse :: "string \<Rightarrow> 'a JsonResult"
  shows
  "parseJsonlFile JSON_parse None = ([], [])
   \<and> fst (parseJsonlFile JSON_parse (Some content))
       = List.map_filter (\<lambda>l. case JSON_parse l of JsonValue v \<Rightarrow> Some v | _ \<Rightarrow> None)
           (filter (\<lambda>line. trim line \<noteq> []) (splitStr (CHR 0x0A) content))
   \<and> length (fst (parseJsonlFile JSON_parse (Some content)))
       = length (filter (\<lambda>l. case JSON_parse l of JsonValue v \<Rightarrow> True | _ \<Rightarrow> False)
           (filter (\<lambda>line. trim line \<noteq> []) (splitStr (CHR 0x0A) content)))
   \<and> snd (parseJsonlFile JSON_parse (Some content))
       = map (\<lambda>l. ''Failed to parse line: '' @ take 100 l @ ''...'')
           (filter (\<lambda>l. JSON_parse l = SyntaxError)
             (filter (\<lambda>line. trim line \<noteq> []) (splitStr (CHR 0x0A) content)))
   \<and> (JSON_parse bad = SyntaxError \<and> JSON_parse l1 = JsonValue e1 \<and> JSON_parse l2 = JsonValue e2
        \<and> trim bad \<noteq> [] \<and> trim l1 \<noteq> [] \<and> trim l2 \<noteq> []
        \<and> CHR 0x0A \<notin> set bad \<and> CHR 0x0A \<notin> set l1 \<and> CHR 0x0A \<notin> set l2
      \<longrightarrow> parseJsonlFile JSON_parse (Some (bad @ CHR 0x0A # l1 @ CHR 0x0A # l2 @ [CHR 0x0A]))
            = ([e1, e2], [''Failed to parse line: '' @ take 100 bad @ ''...'']))"
proof (intro conjI impI)
  show "parseJsonlFile JSON_parse None = ([], [])" by (simp add: parseJsonlFile_def)
  show "fst (parseJsonlFile JSON_parse (Some content))
       = List.map_filter (\<lambda>l. case JSON_parse l of JsonValue v \<Rightarrow> Some v | _ \<Rightarrow> None)
           (filter (\<lambda>line. trim line \<noteq> []) (splitStr (CHR 0x0A) content))"
    by (simp add: parseJsonlFile_Some events_eq)
  show "length (fst (parseJsonlFile JSON_parse (Some content)))
       = length (filter (\<lambda>l. case JSON_parse l of JsonValue v \<Rightarrow> True | _ \<Rightarrow> False)
           (filter (\<lambda>line. trim line \<noteq> []) (splitStr (CHR 0x0A) content)))"
    by (simp add: parseJsonlFile_Some length_events)
  show "snd (parseJsonlFile JSON_parse (Some content))
       = map (\<lambda>l. ''Failed to parse line: '' @ take 100 l @ ''...'')
           (filter (\<lambda>l. JSON_parse l = SyntaxError)
             (filter (\<lambda>line. trim line \<noteq> []) (splitStr (CHR 0x0A) content)))"
    by (simp only: parseJsonlFile_Some snd_conv warnings_eq)
next
  assume a: "JSON_parse bad = SyntaxError \<and> JSON_parse l1 = JsonValue e1 \<and> JSON_parse l2 = JsonValue e2
        \<and> trim bad \<noteq> [] \<and> trim l1 \<noteq> [] \<and> trim l2 \<noteq> []
        \<and> CHR 0x0A \<notin> set bad \<and> CHR 0x0A \<notin> set l1 \<and> CHR 0x0A \<notin> set l2"
  then have sp: "splitStr (CHR 0x0A) (bad @ CHR 0x0A # l1 @ CHR 0x0A # l2 @ [CHR 0x0A]) = [bad, l1, l2, []]"
    by (simp add: splitStr_append)
  have t: "trim [] = []" by (simp add: trim_def)
  show "parseJsonlFile JSON_parse (Some (bad @ CHR 0x0A # l1 @ CHR 0x0A # l2 @ [CHR 0x0A]))
            = ([e1, e2], [''Failed to parse line: '' @ take 100 bad @ ''...''])"
    unfolding parseJsonlFile_Some sp using a t
    by (simp add: List.map_filter_simps parseLine_def slice_take)
qed

theorem parseJsonlFile_tolerant_witness:
  "sampleJson ''{oops'' = SyntaxError \<and> sampleJson ''{}'' = JsonValue Other
   \<and> trim ''{oops'' \<noteq> [] \<and> trim ''{}'' \<noteq> []
   \<and> CHR 0x0A \<notin> set ''{oops'' \<and> CHR 0x0A \<notin> set ''{}''
   \<and> parseJsonlFile sampleJson
         (Some (''{oops'' @ CHR 0x0A # ''{}'' @ CHR 0x0A # ''{}'' @ [CHR 0x0A]))
       = ([Other, Other], [''Failed to parse line: {oops...''])"
proof -
  have h: "sampleJson ''{oops'' = SyntaxError" "sampleJson ''{}'' = JsonValue Other"
    "trim ''{oops'' \<noteq> []" "trim ''{}'' \<noteq> []"
    "CHR 0x0A \<notin> set ''{oops''" "CHR 0x0A \<notin> set ''{}''"
    by (simp_all add: sampleJson_def trim_def isWhiteSpace_def lateFrameLine_def
        earlyFrameLine_def quoted_def)
  from parseJsonlFile_tolerant [of sampleJson _ "''{oops''" "''{}''" Other "''{}''" Other] h
  show ?thesis by simp
qed

text \<open>
  The claim as stated fails: the line \<^verbatim>\<open>null\<close> decodes as JSON, and it yields neither an
  event nor a warning. A file of two lines that decode yields one event.
\<close>

theorem null_line_dropped_counterexample:
  "sampleJson ''null'' \<noteq> SyntaxError \<and> sampleJson ''{}'' \<noteq> SyntaxError
   \<and> filter (\<lambda>line. trim line \<noteq> []) (splitStr (CHR 0x0A) (''null'' @ CHR 0x0A # ''{}'' @ [CHR 0x0A]))
       = [''null'', ''{}'']
   \<and> parseJsonlFile sampleJson (Some (''null'' @ CHR 0x0A # ''{}'' @ [CHR 0x0A])) = ([Other], [])
   \<and> length (fst (parseJsonlFile sampleJson (Some (''null'' @ CHR 0x0A # ''{}'' @ [CHR 0x0A])))) \<noteq> 2"
  by (simp add: parseJsonlFile_Some sampleJson_def trim_def isWhiteSpace_def
      List.map_filter_simps parseLine_def)

section \<open>Properties of the summary projection\<close>

text \<open>
  Claim C6. When the error-context document exists and its fenced error block is found,
  the summary reports the status failed, whatever the status of the context, and its
  error message is the message of the document (the trimmed block, or
  \<^verbatim>\<open>Unknown error\<close> for an empty block), cut to its first 500 characters as every
  message of the summary is.
\<close>

theorem error_context_overrides_status:
  "errorContextMd fs = Some content \<and> errorMatch content = Some block \<longrightarrow>
     SummaryResult.status (commandSummary fs ctx) = Failed
     \<and> SummaryResult.errorMessage (commandSummary fs ctx)
         = Some (take 500 (if trim block = [] then ''Unknown error'' else trim block))
     \<and> map_option ErrorContext.errorMessage (loadErrorContext fs)
         = Some (if trim block = [] then ''Unknown error'' else trim block)"
  by (simp add: commandSummary_def loadErrorContext_def Let_def orStr_def slice_take)

theorem error_context_overrides_status_witness:
  "errorContextMd failedRun = Some errorContextExample
   \<and> errorMatch errorContextExample = Some (''Expected visible, got hidden'' @ [CHR 0x0A])
   \<and> TraceContext.status (buildContext ''t'' quietOutput []) = Passed
   \<and> SummaryResult.status (commandSummary failedRun (buildContext ''t'' quietOutput [])) = Failed
   \<and> SummaryResult.errorMessage (commandSummary failedRun (buildContext ''t'' quietOutput []))
       = Some ''Expected visible, got hidden''"
proof -
  have h: "errorContextMd failedRun = Some errorContextExample"
    by (simp add: failedRun_def)
  have m: "errorMatch errorContextExample = Some (''Expected visible, got hidden'' @ [CHR 0x0A])"
    by code_simp
  have p: "TraceContext.status (buildContext ''t'' quietOutput []) = Passed"
    by (simp add: buildContext_sel statusInfo_def assertionError_def pageErrors_def
        quietOutput_def isAssertionLine_def startsWith_def)
  have t: "trim (''Expected visible, got hidden'' @ [CHR 0x0A]) = ''Expected visible, got hidden''"
    by (simp add: trim_def isWhiteSpace_def)
  from error_context_overrides_status
         [of failedRun errorContextExample "''Expected visible, got hidden'' @ [CHR 0x0A]"
             "buildContext ''t'' quietOutput []"] h m p t
  show ?thesis by simp
qed


end
